theory Spec2Isabelle
  imports Complex_Main "HOL-Library.Log_Nat"
begin

section \<open>Python values shared by the models\<close>

text \<open>
  The exceptions the modelled functions of \<^verbatim>\<open>database.py\<close> and \<^verbatim>\<open>task.py\<close> can raise.
  A function that can raise returns \<open>py_error + 'a\<close>, \<open>Inl\<close> carrying the exception.
\<close>

datatype py_error =
    UnboundLocalError
  | KeyError
  | TypeError
  | IndexError
  | AssertionError
  | RecursionError
  | IntegrityError
  | OSError
  | RefactoringError
  | UnknownCompiler

section \<open>task.py: the number of worker processes\<close>

text \<open>
  A non-negative integer as a double: below \<open>2 ^ 53\<close> it is represented exactly, a larger
  one is rounded to 53 significant bits, to the nearest and to the even one at a tie.
\<close>

definition round53 :: "int \<Rightarrow> int" where
  "round53 n =
     (if n < 2 ^ 53 then n
      else
        (let k = nat (bitlen n - 53);
             m = n div 2 ^ k;
             r = n mod 2 ^ k
         in (if 2 * r > 2 ^ k \<or> (2 * r = 2 ^ k \<and> odd m) then m + 1 else m) * 2 ^ k))"

text \<open>
  \<^verbatim>\<open>int(mp.cpu_count() * 1.5)\<close>: the count \<open>c\<close> is converted to a double, the product
  with \<open>1.5\<close> is the double nearest to three halves of it (the significant bits of
  \<open>3 * c / 2\<close> are those of \<open>3 * c\<close>), and \<^verbatim>\<open>int\<close> truncates towards zero. This is
  the value for every count the conversion accepts (below \<open>2 ^ 1024\<close>); the product is
  exact, and the result the floor, as long as \<open>3 * c < 2 ^ 53\<close>.
\<close>

definition int_times_1_5 :: "int \<Rightarrow> int" where
  "int_times_1_5 c =
     (if 0 \<le> c then round53 (3 * round53 c) div 2
      else - (round53 (3 * round53 (- c)) div 2))"

text \<open>
  The local variable \<^verbatim>\<open>num_processes\<close> after the block
  \<^verbatim>\<open>if cx.options.jobs == 0: ...\<close> of \<^verbatim>\<open>TaskMasterParent.__init__\<close>. The block has no
  \<^verbatim>\<open>else\<close>: \<open>None\<close> is the variable still unbound.
\<close>

definition figure_num_processes :: "int \<Rightarrow> int \<Rightarrow> int option" where
  "figure_num_processes jobs cpu_count =
     (if jobs = 0 then
        (if cpu_count = 1 then Some 2 else Some (int_times_1_5 cpu_count))
      else None)"

text \<open>
  \<^verbatim>\<open>if num_processes > max_parallel: num_processes = max_parallel\<close>. Reading the unbound
  local raises \<^verbatim>\<open>UnboundLocalError\<close>.
\<close>

definition clamp_num_processes :: "int option \<Rightarrow> int \<Rightarrow> py_error + int" where
  "clamp_num_processes num_processes max_parallel =
     (case num_processes of
        None \<Rightarrow> Inl UnboundLocalError
      | Some n \<Rightarrow> Inr (if n > max_parallel then max_parallel else n))"

text \<open>
  \<^verbatim>\<open>TaskMasterParent.__init__\<close> up to the spawn of the task master: the value of
  \<^verbatim>\<open>num_processes\<close> that \<^verbatim>\<open>range(num_processes)\<close> then iterates over, one
  \<^verbatim>\<open>WorkerIO\<close> channel per iteration. \<open>jobs\<close> is \<^verbatim>\<open>cx.options.jobs\<close>, \<open>cpu_count\<close> is
  what \<^verbatim>\<open>mp.cpu_count()\<close> returns.
\<close>

definition TaskMasterParent_num_processes :: "int \<Rightarrow> int \<Rightarrow> int \<Rightarrow> py_error + int" where
  "TaskMasterParent_num_processes jobs cpu_count max_parallel =
     clamp_num_processes (figure_num_processes jobs cpu_count) max_parallel"

text \<open>The channels \<^verbatim>\<open>for i in range(num_processes)\<close> creates: none when the count is not positive.\<close>

definition TaskMasterParent_channels :: "int \<Rightarrow> int \<Rightarrow> int \<Rightarrow> py_error + nat list" where
  "TaskMasterParent_channels jobs cpu_count max_parallel =
     (case TaskMasterParent_num_processes jobs cpu_count max_parallel of
        Inl e \<Rightarrow> Inl e
      | Inr n \<Rightarrow> Inr [0 ..< nat n])"

text \<open>
  The count as the specification words it: the ceiling of \<open>1.5 \<times> cpu_count\<close>, at least 2,
  clamped to the number of tasks.
\<close>

definition spec_num_processes :: "int \<Rightarrow> int \<Rightarrow> int" where
  "spec_num_processes cpu_count max_parallel =
     min max_parallel (max 2 (\<lceil>3 * real_of_int cpu_count / 2\<rceil>))"

section \<open>database.py: the node store\<close>

subsection \<open>Node types\<close>

text \<open>
  Modelled from the spec: \<^verbatim>\<open>nodetypes.py\<close> (the type constants and the class \<^verbatim>\<open>Entry\<close> with
  its method \<^verbatim>\<open>isCommand\<close>) is not among the sources. The node types are the closed set of
  section 3.1 of the specification, and \<open>is_command\<close> holds of \<open>Command\<close>, \<open>Cxx\<close>, \<open>Copy\<close> and
  \<open>Symlink\<close> (section 4.2).
\<close>

datatype node_type = Source | Output | Mkdir | Group | Command | Cxx | Copy | Symlink

fun is_command :: "node_type \<Rightarrow> bool" where
  "is_command Command = True"
| "is_command Cxx = True"
| "is_command Copy = True"
| "is_command Symlink = True"
| "is_command _ = False"

subsection \<open>Command payloads\<close>

text \<open>
  The values the front end passes as \<^verbatim>\<open>data\<close> (\<^verbatim>\<open>gen.py\<close>): an argument vector, or for
  a compile the dictionary \<^verbatim>\<open>{'argv': ..., 'type': ...}\<close>; \<^verbatim>\<open>None\<close>; and the byte string
  \<^verbatim>\<open>util.BlobType(util.CompatPickle(data))\<close>. Equality of the datatype is Python's \<^verbatim>\<open>==\<close> on
  these values: a byte string never equals a list, a dictionary or \<^verbatim>\<open>None\<close>.
\<close>

datatype payload =
    PNone
  | PArgv "string list"
  | PCxx "string list" string
  | PBytes string

text \<open>Python's truth value of a payload: \<^verbatim>\<open>None\<close>, the empty list and the empty byte string are false.\<close>

fun truthy :: "payload \<Rightarrow> bool" where
  "truthy PNone = False"
| "truthy (PArgv xs) = (xs \<noteq> [])"
| "truthy (PCxx argv ty) = True"
| "truthy (PBytes b) = (b \<noteq> [])"

text \<open>
  \<^verbatim>\<open>util.py\<close> is not among the sources: its pickling functions are parameters of the model.
  \<open>set_order\<close> is the order in which Python iterates over a set of entries (it depends on the
  objects' hashes).
\<close>

record util =
  CompatPickle :: "payload \<Rightarrow> string"
  Unpickle :: "string \<Rightarrow> payload"
  set_order :: "nat list \<Rightarrow> nat list"

subsection \<open>Entries, rows and the database object\<close>

text \<open>
  An \<^verbatim>\<open>Entry\<close> object, with the attributes \<^verbatim>\<open>database.py\<close> reads and writes. Entries are
  shared and mutated in place, so they live in a store and are named by reference.
  \<open>e_stamp\<close> is \<open>None\<close> for Python's \<^verbatim>\<open>None\<close>; \<open>e_dirty\<close> is an integer (\<^verbatim>\<open>False\<close> is 0,
  \<^verbatim>\<open>True\<close> is 1); \<open>e_outgoing\<close> is the cached set of outgoing entries, \<open>None\<close> until computed.
  An entry object counts as true in a condition, and \<^verbatim>\<open>==\<close> on entries is the identity of
  objects, that is equality of references. Stamps are real numbers: the code only stores
  them and tests \<^verbatim>\<open>not stamp\<close>, which holds of \<^verbatim>\<open>None\<close> and of zero.
\<close>

type_synonym ref = nat

record entry =
  e_id :: nat
  e_type :: node_type
  e_path :: "string option"
  e_blob :: payload
  e_folder :: "ref option"
  e_stamp :: "real option"
  e_dirty :: int
  e_generated :: bool
  e_outgoing :: "ref list option"

text \<open>
  A row of the table \<^verbatim>\<open>nodes\<close> (without its key): \<^verbatim>\<open>type\<close>, \<^verbatim>\<open>stamp\<close>, \<^verbatim>\<open>dirty\<close> and
  \<^verbatim>\<open>generated\<close> are declared \<^verbatim>\<open>not null\<close> by \<^verbatim>\<open>create_tables\<close>, the other columns may be
  \<^verbatim>\<open>NULL\<close>.
\<close>

record row =
  r_type :: node_type
  r_stamp :: real
  r_dirty :: int
  r_generated :: int
  r_path :: "string option"
  r_folder :: "nat option"
  r_data :: "string option"

text \<open>
  The \<^verbatim>\<open>Database\<close> object together with what it acts on: the four tables (rows in rowid
  order; an edge is the pair \<open>(outgoing, incoming)\<close>), the two caches \<^verbatim>\<open>node_cache_\<close> and
  \<^verbatim>\<open>path_cache_\<close> (written without the final underscore), the store of entry
  objects, the file system (the modification time of each existing path, and the paths whose
  removal the system refuses with an error other than \<^verbatim>\<open>ENOENT\<close>) and the console.
\<close>

record database =
  nodes :: "(nat \<times> row) list"
  edges :: "(nat \<times> nat) list"
  weak_edges :: "(nat \<times> nat) list"
  dynamic_edges :: "(nat \<times> nat) list"
  node_cache :: "nat \<rightharpoonup> ref"
  path_cache :: "string \<rightharpoonup> ref"
  heap :: "ref \<Rightarrow> entry"
  next_ref :: ref
  files :: "string \<rightharpoonup> real"
  unlink_refused :: "string \<Rightarrow> bool"
  console :: "string list"

subsection \<open>The SQL statements\<close>

text \<open>\<^verbatim>\<open>select ... from nodes where id = ?\<close>, then \<^verbatim>\<open>fetchone()\<close>.\<close>

definition select_node :: "database \<Rightarrow> nat \<Rightarrow> row option" where
  "select_node db i = map_of (nodes db) i"

text \<open>\<^verbatim>\<open>select ..., id from nodes where path = ?\<close>, then \<^verbatim>\<open>fetchone()\<close>: the first such row.\<close>

definition select_path :: "database \<Rightarrow> string \<Rightarrow> (nat \<times> row) option" where
  "select_path db p = find (\<lambda>(i, r). r_path r = Some p) (nodes db)"

text \<open>\<^verbatim>\<open>delete from nodes where id = ?\<close>.\<close>

definition delete_node :: "nat \<Rightarrow> (nat \<times> row) list \<Rightarrow> (nat \<times> row) list" where
  "delete_node i rows = filter (\<lambda>(j, r). j \<noteq> i) rows"

text \<open>\<^verbatim>\<open>delete from <edge table> where incoming = ? or outgoing = ?\<close>, both parameters \<open>i\<close>.\<close>

definition delete_edges_of :: "nat \<Rightarrow> (nat \<times> nat) list \<Rightarrow> (nat \<times> nat) list" where
  "delete_edges_of i es = filter (\<lambda>(out, inc). \<not> (inc = i \<or> out = i)) es"

text \<open>\<^verbatim>\<open>select outgoing from <edge table> where incoming = ?\<close>.\<close>

definition select_outgoing :: "nat \<Rightarrow> (nat \<times> nat) list \<Rightarrow> nat list" where
  "select_outgoing i es = map fst (filter (\<lambda>(out, inc). inc = i) es)"

text \<open>
  \<^verbatim>\<open>update nodes set dirty = 0, stamp = ? where id = ?\<close>. The column \<^verbatim>\<open>stamp\<close> is
  \<^verbatim>\<open>real not null\<close>: binding \<^verbatim>\<open>None\<close> to it makes the statement fail with
  \<^verbatim>\<open>sqlite3.IntegrityError\<close> when a row matches, and no row is changed.
\<close>

definition update_stamp :: "database \<Rightarrow> real option \<Rightarrow> nat \<Rightarrow> py_error + database" where
  "update_stamp db stamp i =
     (case stamp of
        None \<Rightarrow> (if i \<in> fst ` set (nodes db) then Inl IntegrityError else Inr db)
      | Some s \<Rightarrow>
          Inr (db\<lparr>nodes := map (\<lambda>(j, r). if j = i then (j, r\<lparr>r_dirty := 0, r_stamp := s\<rparr>) else (j, r))
                              (nodes db)\<rparr>))"

text \<open>\<^verbatim>\<open>update nodes set type = ?, folder = ?, data = ?, dirty = ? where id = ?\<close>.\<close>

definition update_node ::
  "database \<Rightarrow> node_type \<Rightarrow> nat option \<Rightarrow> string option \<Rightarrow> int \<Rightarrow> nat \<Rightarrow> database" where
  "update_node db ty folder_id dat dirty i =
     db\<lparr>nodes := map (\<lambda>(j, r). if j = i
                                then (j, r\<lparr>r_type := ty, r_folder := folder_id, r_data := dat, r_dirty := dirty\<rparr>)
                                else (j, r))
                     (nodes db)\<rparr>"

text \<open>The value bound to the \<^verbatim>\<open>data\<close> column for a blob: \<^verbatim>\<open>None\<close> is \<^verbatim>\<open>NULL\<close>.\<close>

fun blob_column :: "payload \<Rightarrow> string option" where
  "blob_column (PBytes b) = Some b"
| "blob_column _ = None"

subsection \<open>Importing and querying nodes\<close>

text \<open>
  The tuple \<^verbatim>\<open>import_node\<close> receives as \<^verbatim>\<open>row\<close>. Its folder component \<^verbatim>\<open>row[5]\<close> is
  \<^verbatim>\<open>None\<close>, a node id (from the table) or an entry object (from \<^verbatim>\<open>add_file\<close>).
\<close>

datatype folder_col = FNull | FId nat | FEntry ref

type_synonym node_tuple =
  "node_type \<times> real \<times> int \<times> int \<times> string option \<times> folder_col \<times> string option"

definition row_tuple :: "row \<Rightarrow> node_tuple" where
  "row_tuple r =
     (r_type r, r_stamp r, r_dirty r, r_generated r, r_path r,
      (case r_folder r of None \<Rightarrow> FNull | Some f \<Rightarrow> FId f), r_data r)"

text \<open>
  \<^verbatim>\<open>query_node\<close> and \<^verbatim>\<open>import_node\<close> call each other along the chain of folders. The
  first argument bounds the depth of that recursion, as Python's recursion limit does:
  exceeding it raises \<^verbatim>\<open>RecursionError\<close>. \<^verbatim>\<open>fetchone()\<close> returns \<^verbatim>\<open>None\<close> for a missing
  row, and subscripting it raises \<^verbatim>\<open>TypeError\<close>.
\<close>

fun query_node :: "nat \<Rightarrow> util \<Rightarrow> database \<Rightarrow> nat \<Rightarrow> py_error + (database \<times> ref)"
and import_node ::
  "nat \<Rightarrow> util \<Rightarrow> database \<Rightarrow> nat \<Rightarrow> node_tuple option \<Rightarrow> py_error + (database \<times> ref)"
where
  "query_node fuel u db i =
     (case node_cache db i of
        Some r \<Rightarrow> Inr (db, r)
      | None \<Rightarrow> import_node fuel u db i (map_option row_tuple (select_node db i)))"
| "import_node fuel u db i rw =
     (if node_cache db i \<noteq> None then Inl AssertionError
      else case rw of
        None \<Rightarrow> Inl TypeError
      | Some (ty, st, di, ge, pa, fo, da) \<Rightarrow>
          (case (case fo of
                   FNull \<Rightarrow> Inr (db, None)
                 | FEntry f \<Rightarrow> Inr (db, Some f)
                 | FId f \<Rightarrow>
                     if f = 0 then Inr (db, None)
                     else (case fuel of
                             0 \<Rightarrow> Inl RecursionError
                           | Suc n \<Rightarrow>
                               (case query_node n u db f of
                                  Inl err \<Rightarrow> Inl err
                                | Inr (db1, r) \<Rightarrow> Inr (db1, Some r)))) of
             Inl err \<Rightarrow> Inl err
           | Inr (db1, folder) \<Rightarrow>
               (let blob = (case da of
                              None \<Rightarrow> PNone
                            | Some b \<Rightarrow> if b = [] then PNone else Unpickle u b);
                    node = \<lparr>e_id = i, e_type = ty, e_path = pa, e_blob = blob,
                            e_folder = folder, e_stamp = Some st, e_dirty = di,
                            e_generated = (ge \<noteq> 0), e_outgoing = None\<rparr>;
                    r = next_ref db1;
                    db2 = db1\<lparr>heap := (heap db1)(r := node), next_ref := Suc r,
                              node_cache := (node_cache db1)(i \<mapsto> r)\<rparr>
                in case pa of
                     None \<Rightarrow> Inr (db2, r)
                   | Some p \<Rightarrow>
                       if p = [] then Inr (db2, r)
                       else if path_cache db2 p \<noteq> None then Inl AssertionError
                       else Inr (db2\<lparr>path_cache := (path_cache db2)(p \<mapsto> r)\<rparr>, r))))"

definition query_path ::
  "nat \<Rightarrow> util \<Rightarrow> database \<Rightarrow> string \<Rightarrow> py_error + (database \<times> ref option)" where
  "query_path fuel u db p =
     (case path_cache db p of
        Some r \<Rightarrow> Inr (db, Some r)
      | None \<Rightarrow>
          (case select_path db p of
             None \<Rightarrow> Inr (db, None)
           | Some (i, r) \<Rightarrow>
               (case import_node fuel u db i (Some (row_tuple r)) of
                  Inl err \<Rightarrow> Inl err
                | Inr (db1, n) \<Rightarrow> Inr (db1, Some n))))"

text \<open>The elements of \<^verbatim>\<open>node.outgoing\<close>: none while the attribute is \<^verbatim>\<open>None\<close>.\<close>

definition outgoing_of :: "database \<Rightarrow> ref \<Rightarrow> ref list" where
  "outgoing_of db node = (case e_outgoing (heap db node) of None \<Rightarrow> [] | Some xs \<Rightarrow> xs)"

text \<open>\<^verbatim>\<open>node.outgoing.add(entry)\<close> on the set object the node holds.\<close>

definition outgoing_add :: "database \<Rightarrow> ref \<Rightarrow> ref \<Rightarrow> database" where
  "outgoing_add db node entry =
     (let xs = outgoing_of db node
      in db\<lparr>heap := (heap db)(node := (heap db node)\<lparr>e_outgoing :=
                Some (if entry \<in> set xs then xs else xs @ [entry])\<rparr>)\<rparr>)"

text \<open>
  One of the two loops of \<^verbatim>\<open>query_outgoing\<close>:
  \<^verbatim>\<open>for outgoing_id, in ...: entry = self.query_node(outgoing_id); node.outgoing.add(entry)\<close>.
\<close>

fun add_outgoing ::
  "nat \<Rightarrow> util \<Rightarrow> database \<Rightarrow> ref \<Rightarrow> nat list \<Rightarrow> py_error + database" where
  "add_outgoing fuel u db node [] = Inr db"
| "add_outgoing fuel u db node (i # ids) =
     (case query_node fuel u db i of
        Inl err \<Rightarrow> Inl err
      | Inr (db1, entry) \<Rightarrow> add_outgoing fuel u (outgoing_add db1 node entry) node ids)"

definition query_outgoing ::
  "nat \<Rightarrow> util \<Rightarrow> database \<Rightarrow> ref \<Rightarrow> py_error + (database \<times> ref list)" where
  "query_outgoing fuel u db node =
     (let cached = outgoing_of db node
      in if cached \<noteq> [] then Inr (db, cached)
         else
           (let db0 = db\<lparr>heap := (heap db)(node := (heap db node)\<lparr>e_outgoing := Some []\<rparr>)\<rparr>;
                i = e_id (heap db node)
            in case add_outgoing fuel u db0 node (select_outgoing i (edges db0)) of
                 Inl err \<Rightarrow> Inl err
               | Inr db1 \<Rightarrow>
                   (case add_outgoing fuel u db1 node (select_outgoing i (dynamic_edges db1)) of
                      Inl err \<Rightarrow> Inl err
                    | Inr db2 \<Rightarrow> Inr (db2, outgoing_of db2 node))))"

subsection \<open>Updating nodes\<close>

text \<open>
  \<^verbatim>\<open>update_command\<close>: the result is the returned boolean. The comparison is between
  \<^verbatim>\<open>entry.blob\<close> and the raw \<^verbatim>\<open>data\<close>, the assignment at the end stores \<^verbatim>\<open>blob\<close>, the
  pickled form. Under \<^verbatim>\<open>refactoring\<close> a change is printed and raised as an exception.
\<close>

definition update_command ::
  "util \<Rightarrow> database \<Rightarrow> ref \<Rightarrow> node_type \<Rightarrow> ref option \<Rightarrow> payload \<Rightarrow> bool
     \<Rightarrow> py_error + (database \<times> bool)" where
  "update_command u db entry ty folder dat refactoring =
     (let blob = (if \<not> truthy dat then PNone else PBytes (CompatPickle u dat));
          e = heap db entry
      in if e_type e = ty \<and> e_folder e = folder \<and> e_blob e = dat then Inr (db, False)
         else if refactoring then Inl RefactoringError
         else
           (let folder_id = (case folder of None \<Rightarrow> None | Some f \<Rightarrow> Some (e_id (heap db f)));
                db1 = update_node db ty folder_id (blob_column blob) 1 (e_id e)
            in Inr (db1\<lparr>heap := (heap db1)(entry :=
                      e\<lparr>e_type := ty, e_folder := folder, e_blob := blob, e_dirty := 1\<rparr>)\<rparr>,
                    True)))"

text \<open>
  \<^verbatim>\<open>os.path.getmtime(entry.path)\<close>: \<open>None\<close> when it raises (the path is \<^verbatim>\<open>None\<close> or names
  no file).
\<close>

definition getmtime :: "database \<Rightarrow> string option \<Rightarrow> real option" where
  "getmtime db p = (case p of None \<Rightarrow> None | Some q \<Rightarrow> files db q)"

text \<open>
  \<^verbatim>\<open>unmark_dirty(entry, stamp=None)\<close>. \<^verbatim>\<open>not stamp\<close> holds of \<^verbatim>\<open>None\<close> and of \<open>0.0\<close>.
  When \<^verbatim>\<open>getmtime\<close> raises, the handler prints the warning and control falls through to
  the \<^verbatim>\<open>update\<close> statement with \<^verbatim>\<open>stamp\<close> as it was.
\<close>

definition unmark_dirty :: "database \<Rightarrow> ref \<Rightarrow> real option \<Rightarrow> py_error + database" where
  "unmark_dirty db entry stamp =
     (let e = heap db entry;
          (stamp1, db1) =
            (if stamp = None \<or> stamp = Some 0 then
               (if is_command (e_type e) then (Some 0, db)
                else (case getmtime db (e_path e) of
                        Some m \<Rightarrow> (Some m, db)
                      | None \<Rightarrow>
                          (stamp, db\<lparr>console := console db @
                             [''Could not unmark file as dirty; leaving dirty.'']\<rparr>)))
             else (stamp, db))
      in case update_stamp db1 stamp1 (e_id e) of
           Inl err \<Rightarrow> Inl err
         | Inr db2 \<Rightarrow>
             Inr (db2\<lparr>heap := (heap db2)(entry := e\<lparr>e_dirty := 0, e_stamp := stamp1\<rparr>)\<rparr>))"

subsection \<open>Dropping nodes\<close>

text \<open>\<^verbatim>\<open>del self.node_cache[entry.id]\<close> raises \<^verbatim>\<open>KeyError\<close> when the id is not cached.\<close>

definition drop_entry :: "database \<Rightarrow> ref \<Rightarrow> py_error + database" where
  "drop_entry db entry =
     (let i = e_id (heap db entry);
          db1 = db\<lparr>nodes := delete_node i (nodes db),
                    edges := delete_edges_of i (edges db),
                    dynamic_edges := delete_edges_of i (dynamic_edges db),
                    weak_edges := delete_edges_of i (weak_edges db)\<rparr>
      in if node_cache db1 i = None then Inl KeyError
         else Inr (db1\<lparr>node_cache := (node_cache db1)(i := None)\<rparr>))"

definition isabs :: "string \<Rightarrow> bool" where
  "isabs p = (case p of [] \<Rightarrow> False | c # cs \<Rightarrow> c = CHR ''/'')"

text \<open>
  \<^verbatim>\<open>drop_output\<close>: \<^verbatim>\<open>os.unlink\<close> of a missing file raises \<^verbatim>\<open>ENOENT\<close>, which is swallowed;
  any other error is printed and raised again.
\<close>

definition drop_output :: "database \<Rightarrow> ref \<Rightarrow> py_error + database" where
  "drop_output db output =
     (let e = heap db output
      in if e_type e \<noteq> Output then Inl AssertionError
         else case e_path e of
           None \<Rightarrow> Inl TypeError
         | Some p \<Rightarrow>
             if isabs p then Inl AssertionError
             else
               (let db1 = (if files db p \<noteq> None
                           then db\<lparr>console := console db @ [''Removing old output: '' @ p]\<rparr>
                           else db)
                in if unlink_refused db1 p then Inl OSError
                   else drop_entry (db1\<lparr>files := (files db1)(p := None)\<rparr>) output))"

text \<open>The loop of \<^verbatim>\<open>drop_command\<close> over the entries of the outgoing set.\<close>

fun drop_outputs :: "database \<Rightarrow> ref list \<Rightarrow> py_error + database" where
  "drop_outputs db [] = Inr db"
| "drop_outputs db (output # rest) =
     (if e_type (heap db output) \<noteq> Output then Inl AssertionError
      else case drop_output db output of
        Inl err \<Rightarrow> Inl err
      | Inr db1 \<Rightarrow> drop_outputs db1 rest)"

definition drop_command :: "nat \<Rightarrow> util \<Rightarrow> database \<Rightarrow> ref \<Rightarrow> py_error + database" where
  "drop_command fuel u db cmd_entry =
     (case query_outgoing fuel u db cmd_entry of
        Inl err \<Rightarrow> Inl err
      | Inr (db1, outs) \<Rightarrow>
          (case drop_outputs db1 (set_order u outs) of
             Inl err \<Rightarrow> Inl err
           | Inr db2 \<Rightarrow> drop_entry db2 cmd_entry))"

subsection \<open>Invariants of the node store\<close>

text \<open>
  What \<^verbatim>\<open>import_node\<close> establishes for every entry it caches: the object is allocated, it is
  cached under its own id, and its type and path are those of its row.
\<close>

definition cache_coherent :: "database \<Rightarrow> bool" where
  "cache_coherent db =
     (\<forall>i r. node_cache db i = Some r \<longrightarrow>
        r < next_ref db \<and> e_id (heap db r) = i \<and>
        (\<exists>rw. select_node db i = Some rw \<and>
              e_type (heap db r) = r_type rw \<and> e_path (heap db r) = r_path rw))"

text \<open>
  An operation that only reads the tables and the file system: it may allocate objects and
  extend the node cache.
\<close>

definition reads_only :: "database \<Rightarrow> database \<Rightarrow> bool" where
  "reads_only db db' =
     (nodes db' = nodes db \<and> edges db' = edges db \<and> weak_edges db' = weak_edges db \<and>
      dynamic_edges db' = dynamic_edges db \<and> files db' = files db \<and>
      unlink_refused db' = unlink_refused db \<and> console db' = console db \<and>
      next_ref db \<le> next_ref db' \<and>
      (\<forall>i r. node_cache db i = Some r \<longrightarrow> node_cache db' i = Some r))"

text \<open>
  The allocation step of \<^verbatim>\<open>import_node\<close>: a new object, cached under the id, its path
  cached as well when \<open>pc\<close> holds the new path cache.
\<close>

definition stored :: "database \<Rightarrow> nat \<Rightarrow> entry \<Rightarrow> (string \<rightharpoonup> ref) option \<Rightarrow> database" where
  "stored db i node pc =
     (let db2 = db\<lparr>heap := (heap db)(next_ref db := node), next_ref := Suc (next_ref db),
                   node_cache := (node_cache db)(i \<mapsto> next_ref db)\<rparr>
      in case pc of None \<Rightarrow> db2 | Some c \<Rightarrow> db2\<lparr>path_cache := c\<rparr>)"

text \<open>
  The effect of a query: nothing but reading, coherence is kept, and no object allocated
  before is touched.
\<close>

definition imported :: "database \<Rightarrow> database \<Rightarrow> bool" where
  "imported db db' =
     (reads_only db db' \<and> (cache_coherent db \<longrightarrow> cache_coherent db') \<and>
      (\<forall>q < next_ref db. heap db' q = heap db q))"

text \<open>
  The same, up to attributes other than the id, the type and the path of the objects
  allocated before (the cached sets of edges may change).
\<close>

definition kept :: "database \<Rightarrow> database \<Rightarrow> bool" where
  "kept db db' =
     (reads_only db db' \<and> (cache_coherent db \<longrightarrow> cache_coherent db') \<and>
      (\<forall>q < next_ref db. e_id (heap db' q) = e_id (heap db q) \<and>
         e_type (heap db' q) = e_type (heap db q) \<and> e_path (heap db' q) = e_path (heap db q)))"

text \<open>
  The set cached in \<^verbatim>\<open>node.outgoing\<close> is up to date: it is unset or empty (and then
  recomputed by \<^verbatim>\<open>query_outgoing\<close>), or it holds cached entries only, among them one for
  every strong outgoing edge of the node.
\<close>

definition outgoing_cache_ok :: "database \<Rightarrow> ref \<Rightarrow> bool" where
  "outgoing_cache_ok db node =
     (outgoing_of db node = [] \<or>
      ((\<forall>o'. (o', e_id (heap db node)) \<in> set (edges db) \<longrightarrow>
           (\<exists>r \<in> set (outgoing_of db node). node_cache db o' = Some r)) \<and>
       (\<forall>r \<in> set (outgoing_of db node). \<exists>o'. node_cache db o' = Some r)))"

text \<open>An edge table mentions a node when the node is an endpoint of one of its edges.\<close>

definition mentions :: "(nat \<times> nat) list \<Rightarrow> nat \<Rightarrow> bool" where
  "mentions es i = (\<exists>e \<in> set es. fst e = i \<or> snd e = i)"

subsection \<open>A concrete node store\<close>

text \<open>
  A small database for the concrete instances below: the compile command 1 reads the source
  4 and the header 6 (a discovered, dynamic edge), runs in the folder 5 and produces the
  outputs 2 and 3. The file of output 2 exists, that of output 3 does not.
\<close>

definition ex_util :: util where
  "ex_util = \<lparr>CompatPickle = (\<lambda>d. case d of PArgv xs \<Rightarrow> concat xs | _ \<Rightarrow> ''pickle''),
              Unpickle = (\<lambda>b. PArgv [b]),
              set_order = (\<lambda>xs. xs)\<rparr>"

definition ex_entry :: entry where
  "ex_entry = \<lparr>e_id = 0, e_type = Source, e_path = None, e_blob = PNone, e_folder = None,
               e_stamp = None, e_dirty = 0, e_generated = False, e_outgoing = None\<rparr>"

definition ex_nodes :: "(nat \<times> row) list" where
  "ex_nodes =
     [(1, \<lparr>r_type = Cxx, r_stamp = 0, r_dirty = 1, r_generated = 0, r_path = None,
           r_folder = Some 5, r_data = Some ''gcc -c a.c''\<rparr>),
      (2, \<lparr>r_type = Output, r_stamp = 0, r_dirty = 1, r_generated = 0, r_path = Some ''obj/a.o'',
           r_folder = Some 5, r_data = None\<rparr>),
      (3, \<lparr>r_type = Output, r_stamp = 0, r_dirty = 1, r_generated = 0, r_path = Some ''obj/a.d'',
           r_folder = Some 5, r_data = None\<rparr>),
      (4, \<lparr>r_type = Source, r_stamp = 3, r_dirty = 0, r_generated = 0, r_path = Some ''/src/a.c'',
           r_folder = None, r_data = None\<rparr>),
      (5, \<lparr>r_type = Mkdir, r_stamp = 0, r_dirty = 0, r_generated = 0, r_path = Some ''obj'',
           r_folder = None, r_data = None\<rparr>),
      (6, \<lparr>r_type = Source, r_stamp = 2, r_dirty = 0, r_generated = 0, r_path = Some ''/src/a.h'',
           r_folder = None, r_data = None\<rparr>)]"

definition ex_db :: database where
  "ex_db = \<lparr>nodes = ex_nodes,
            edges = [(1, 4), (2, 1), (3, 1)],
            weak_edges = [(1, 5)],
            dynamic_edges = [(1, 6)],
            node_cache = Map.empty,
            path_cache = Map.empty,
            heap = (\<lambda>r. ex_entry),
            next_ref = 0,
            files = [''obj/a.o'' \<mapsto> 7, ''/src/a.c'' \<mapsto> 3, ''/src/a.h'' \<mapsto> 2],
            unlink_refused = (\<lambda>p. False),
            console = []\<rparr>"

text \<open>The entry objects of the folder 5 and of the nodes 2, 3 and 1, as \<^verbatim>\<open>query_node\<close> builds them.\<close>

definition ex_folder_entry :: entry where
  "ex_folder_entry = \<lparr>e_id = 5, e_type = Mkdir, e_path = Some ''obj'', e_blob = PNone,
     e_folder = None, e_stamp = Some 0, e_dirty = 0, e_generated = False, e_outgoing = None\<rparr>"

definition ex_output_entry :: entry where
  "ex_output_entry = \<lparr>e_id = 2, e_type = Output, e_path = Some ''obj/a.o'', e_blob = PNone,
     e_folder = Some 0, e_stamp = Some 0, e_dirty = 1, e_generated = False, e_outgoing = None\<rparr>"

definition ex_missing_entry :: entry where
  "ex_missing_entry = \<lparr>e_id = 3, e_type = Output, e_path = Some ''obj/a.d'', e_blob = PNone,
     e_folder = Some 0, e_stamp = Some 0, e_dirty = 1, e_generated = False, e_outgoing = None\<rparr>"

definition ex_command_entry :: entry where
  "ex_command_entry = \<lparr>e_id = 1, e_type = Cxx, e_path = None, e_blob = PArgv [''gcc -c a.c''],
     e_folder = Some 0, e_stamp = Some 0, e_dirty = 1, e_generated = False, e_outgoing = None\<rparr>"

text \<open>\<open>ex_db\<close> after the nodes 2, 3 and 1 were queried, in this order.\<close>

definition ex_db_loaded :: database where
  "ex_db_loaded =
     ex_db\<lparr>node_cache := [5 \<mapsto> 0, 2 \<mapsto> 1, 3 \<mapsto> 2, 1 \<mapsto> 3],
            path_cache := [''obj'' \<mapsto> 0, ''obj/a.o'' \<mapsto> 1, ''obj/a.d'' \<mapsto> 2],
            heap := (\<lambda>r. ex_entry)(0 := ex_folder_entry, 1 := ex_output_entry,
                       2 := ex_missing_entry, 3 := ex_command_entry),
            next_ref := 4\<rparr>"

text \<open>
  \<open>ex_db\<close> after the command 1 alone was queried (its folder is imported first); after
  \<^verbatim>\<open>query_outgoing\<close> was then called on the command; and after the output 2 was then
  dropped by \<^verbatim>\<open>drop_output\<close>.
\<close>

definition ex_db_command :: database where
  "ex_db_command =
     ex_db\<lparr>node_cache := [5 \<mapsto> 0, 1 \<mapsto> 1],
            path_cache := [''obj'' \<mapsto> 0],
            heap := (\<lambda>r. ex_entry)(0 := ex_folder_entry, 1 := ex_command_entry),
            next_ref := 2\<rparr>"

definition ex_db_queried :: database where
  "ex_db_queried = fst (projr (query_outgoing 10 ex_util ex_db_command 1))"

definition ex_db_dropped :: database where
  "ex_db_dropped = projr (drop_output ex_db_queried 2)"

section \<open>task.py: the worker\<close>

subsection \<open>Tasks and messages\<close>

text \<open>
  A \<^verbatim>\<open>Task\<close> object. Tasks refer to each other (\<^verbatim>\<open>outgoing\<close>, \<^verbatim>\<open>incoming\<close>) and
  \<^verbatim>\<open>incoming\<close> is mutated in place, so tasks live in a store and are named by reference.
  The type of a task is the type of its node: \<^verbatim>\<open>'cxx'\<close> is \<open>Cxx\<close> and \<^verbatim>\<open>'cmd'\<close> is
  \<open>Command\<close>.
\<close>

type_synonym tref = nat
type_synonym worker = nat

record task =
  t_id :: nat
  t_type :: node_type
  t_data :: payload
  t_folder :: "string option"
  t_outputs :: "string list"
  t_outgoing :: "tref list"
  t_incoming :: "tref list"

text \<open>The message \<^verbatim>\<open>{'id': 'task', ...}\<close> the task master sends to a worker.\<close>

record task_message =
  task_id :: nat
  task_type :: node_type
  task_data :: payload
  task_folder :: "string option"
  task_outputs :: "string list"

text \<open>The message \<^verbatim>\<open>{'id': 'ranTask', 'ok': ..., 'task_id': ...}\<close>.\<close>

record ran_task =
  ran_ok :: bool
  ran_task_id :: nat

text \<open>The dictionary \<^verbatim>\<open>doCommand\<close> and \<^verbatim>\<open>doCompile\<close> return; only the latter sets \<^verbatim>\<open>deps\<close>.\<close>

record reply =
  reply_ok :: bool
  reply_stdout :: string
  reply_stderr :: string
  reply_deps :: "string list option"

text \<open>The message \<^verbatim>\<open>{'id': 'results', ...}\<close>: the reply with the worker's additions.\<close>

record results =
  res_ok :: bool
  res_stdout :: string
  res_stderr :: string
  res_deps :: "string list option"
  res_pid :: nat
  res_task_id :: nat
  res_updates :: "(string \<times> real) list"

text \<open>The message \<^verbatim>\<open>{'id': 'completed', 'status': ...}\<close> the task master sends upward.\<close>

datatype completed = CompletedOk | CompletedFailed | CompletedCrashed nat

subsection \<open>The worker process\<close>

text \<open>
  What the worker takes from \<^verbatim>\<open>util.py\<close> and \<^verbatim>\<open>os.path\<close>, as parameters. \<open>Execute\<close> is
  \<^verbatim>\<open>util.Execute\<close> run inside \<^verbatim>\<open>util.FolderChanger(task_folder)\<close>: from the folder, the
  command and the files it gives the return code, the two outputs and the files the
  command leaves, or the exception raised.
\<close>

record worker_util =
  Execute :: "string option \<Rightarrow> payload \<Rightarrow> (string \<rightharpoonup> real)
                \<Rightarrow> py_error + (int \<times> string \<times> string \<times> (string \<rightharpoonup> real))"
  ParseGCCDeps :: "string \<Rightarrow> string \<times> string list"
  abspath :: "string \<Rightarrow> string"
  relpath :: "string \<Rightarrow> string \<Rightarrow> string"

text \<open>The \<^verbatim>\<open>WorkerChild\<close> object and the file system it acts on.\<close>

record worker_child =
  buildPath :: string
  pid :: nat
  w_files :: "string \<rightharpoonup> real"
  w_unlink_refused :: "string \<Rightarrow> bool"

text \<open>
  \<^verbatim>\<open>for output in message['task_outputs']: os.unlink(output)\<close>, where \<^verbatim>\<open>ENOENT\<close> is
  ignored and any other error raised.
\<close>

fun remove_outputs :: "worker_child \<Rightarrow> string list \<Rightarrow> py_error + worker_child" where
  "remove_outputs w [] = Inr w"
| "remove_outputs w (output # rest) =
     (if w_unlink_refused w output then Inl OSError
      else remove_outputs (w\<lparr>w_files := (w_files w)(output := None)\<rparr>) rest)"

definition doCommand ::
  "worker_util \<Rightarrow> worker_child \<Rightarrow> task_message \<Rightarrow> py_error + (worker_child \<times> reply)" where
  "doCommand u w message =
     (case Execute u (task_folder message) (task_data message) (w_files w) of
        Inl err \<Rightarrow> Inl err
      | Inr (returncode, out, err, fs) \<Rightarrow>
          Inr (w\<lparr>w_files := fs\<rparr>,
               \<lparr>reply_ok = (returncode = 0), reply_stdout = out, reply_stderr = err,
                reply_deps = None\<rparr>))"

text \<open>\<^verbatim>\<open>os.path.commonprefix\<close> of two strings.\<close>

fun commonprefix :: "string \<Rightarrow> string \<Rightarrow> string" where
  "commonprefix (a # as) (b # bs) = (if a = b then a # commonprefix as bs else [])"
| "commonprefix _ _ = []"

text \<open>The body of the loop of \<^verbatim>\<open>doCompile\<close> over the dependencies.\<close>

definition adjust_path :: "worker_util \<Rightarrow> worker_child \<Rightarrow> string \<Rightarrow> py_error + string" where
  "adjust_path u w inc_path =
     (if \<not> isabs inc_path then
        (let inc = abspath u inc_path
         in if buildPath w = [] then Inl IndexError
            else
              (let build_path = (if last (buildPath w) \<noteq> CHR ''/''
                                 then buildPath w @ ''/'' else buildPath w);
                   prefix = commonprefix build_path inc
               in Inr (if prefix = build_path then relpath u inc (buildPath w) else inc)))
      else Inr inc_path)"

fun adjust_paths :: "worker_util \<Rightarrow> worker_child \<Rightarrow> string list \<Rightarrow> py_error + string list" where
  "adjust_paths u w [] = Inr []"
| "adjust_paths u w (inc_path # rest) =
     (case adjust_path u w inc_path of
        Inl err \<Rightarrow> Inl err
      | Inr p \<Rightarrow>
          (case adjust_paths u w rest of
             Inl err \<Rightarrow> Inl err
           | Inr ps \<Rightarrow> Inr (p # ps)))"

text \<open>
  \<^verbatim>\<open>doCompile\<close>: the data of a compile is the dictionary with \<^verbatim>\<open>'type'\<close> and \<^verbatim>\<open>'argv'\<close>;
  subscripting any other payload with a string raises \<^verbatim>\<open>TypeError\<close>.
\<close>

definition doCompile ::
  "worker_util \<Rightarrow> worker_child \<Rightarrow> task_message \<Rightarrow> py_error + (worker_child \<times> reply)" where
  "doCompile u w message =
     (case task_data message of
        PCxx argv cc_type \<Rightarrow>
          (case Execute u (task_folder message) (PArgv argv) (w_files w) of
             Inl e \<Rightarrow> Inl e
           | Inr (returncode, out, err, fs) \<Rightarrow>
               if cc_type = ''gcc'' then
                 (case adjust_paths u w (snd (ParseGCCDeps u err)) of
                    Inl e \<Rightarrow> Inl e
                  | Inr paths \<Rightarrow>
                      Inr (w\<lparr>w_files := fs\<rparr>,
                           \<lparr>reply_ok = (returncode = 0), reply_stdout = out,
                            reply_stderr = fst (ParseGCCDeps u err),
                            reply_deps = Some paths\<rparr>))
               else Inl UnknownCompiler)
      | _ \<Rightarrow> Inl TypeError)"

text \<open>\<^verbatim>\<open>self.taskMap[task_type](message)\<close>: the map has the keys \<^verbatim>\<open>'cxx'\<close> and \<^verbatim>\<open>'cmd'\<close>.\<close>

definition taskMap ::
  "worker_util \<Rightarrow> worker_child \<Rightarrow> task_message \<Rightarrow> py_error + (worker_child \<times> reply)" where
  "taskMap u w message =
     (case task_type message of
        Cxx \<Rightarrow> doCompile u w message
      | Command \<Rightarrow> doCommand u w message
      | _ \<Rightarrow> Inl KeyError)"

text \<open>
  \<^verbatim>\<open>for output in message['task_outputs']: new_timestamps.append((output,
  os.path.getmtime(output)))\<close>; \<^verbatim>\<open>getmtime\<close> raises for a missing file.
\<close>

fun stat_outputs :: "worker_child \<Rightarrow> string list \<Rightarrow> py_error + (string \<times> real) list" where
  "stat_outputs w [] = Inr []"
| "stat_outputs w (output # rest) =
     (case w_files w output of
        None \<Rightarrow> Inl OSError
      | Some mtime \<Rightarrow>
          (case stat_outputs w rest of
             Inl err \<Rightarrow> Inl err
           | Inr ts \<Rightarrow> Inr ((output, mtime) # ts)))"

text \<open>
  \<^verbatim>\<open>receiveTask\<close>: the worker after the task, the \<^verbatim>\<open>ranTask\<close> message sent on the task
  channel and the \<^verbatim>\<open>results\<close> message sent on the result channel.
\<close>

definition receiveTask ::
  "worker_util \<Rightarrow> worker_child \<Rightarrow> task_message
     \<Rightarrow> py_error + (worker_child \<times> ran_task \<times> results)" where
  "receiveTask u w message =
     (case remove_outputs w (task_outputs message) of
        Inl err \<Rightarrow> Inl err
      | Inr w1 \<Rightarrow>
          (case taskMap u w1 message of
             Inl err \<Rightarrow> Inl err
           | Inr (w2, response) \<Rightarrow>
               (case (if reply_ok response then stat_outputs w2 (task_outputs message)
                      else Inr []) of
                  Inl err \<Rightarrow> Inl err
                | Inr new_timestamps \<Rightarrow>
                    Inr (w2,
                         \<lparr>ran_ok = reply_ok response, ran_task_id = task_id message\<rparr>,
                         \<lparr>res_ok = reply_ok response, res_stdout = reply_stdout response,
                          res_stderr = reply_stderr response, res_deps = reply_deps response,
                          res_pid = pid w2, res_task_id = task_id message,
                          res_updates = new_timestamps\<rparr>))))"

text \<open>
  A concrete worker: the compiler writes its output with the modification time 9 when
  the source exists, and fails otherwise.
\<close>

definition ex_worker_util :: worker_util where
  "ex_worker_util =
     \<lparr>Execute = (\<lambda>folder cmd fs.
         case cmd of
           PArgv [cc, src, out] \<Rightarrow>
             (if fs src = None then Inr (1, [], ''no such file'', fs)
              else Inr (0, [], src @ '': /usr/include/stdio.h'', fs(out \<mapsto> 9)))
         | _ \<Rightarrow> Inl OSError),
       ParseGCCDeps = (\<lambda>err. ([], [''/usr/include/stdio.h''])),
       abspath = (\<lambda>p. ''/build/'' @ p),
       relpath = (\<lambda>p start. drop (Suc (length start)) p)\<rparr>"

definition ex_worker :: worker_child where
  "ex_worker = \<lparr>buildPath = ''/build'', pid = 4711,
                 w_files = [''a.c'' \<mapsto> 3, ''a.o'' \<mapsto> 4], w_unlink_refused = (\<lambda>p. False)\<rparr>"

definition ex_task_message :: "string \<Rightarrow> task_message" where
  "ex_task_message src =
     \<lparr>task_id = 1, task_type = Cxx, task_data = PCxx [''cc'', src, ''a.o''] ''gcc'',
      task_folder = None, task_outputs = [''a.o'']\<rparr>"

section \<open>task.py: the task master\<close>

subsection \<open>The child side\<close>

text \<open>
  The \<^verbatim>\<open>TaskMasterChild\<close> object and what it acts on: the store of task objects, the
  ready list \<^verbatim>\<open>task_graph\<close> (a stack: \<^verbatim>\<open>append\<close> and \<^verbatim>\<open>pop\<close> work at its end), the
  dictionary \<^verbatim>\<open>outstanding\<close> in key order, the set \<^verbatim>\<open>idle\<close>, the flag, and the effects:
  the messages sent upward on \<^verbatim>\<open>self.channel\<close>, the workers \<^verbatim>\<open>procman.close\<close> was called
  for, the task messages sent to workers, the children of the process manager with their
  liveness, and whether \<^verbatim>\<open>procman.shutdown\<close> and \<^verbatim>\<open>pump.cancel\<close> were called.
\<close>

record task_master_child =
  tasks :: "tref \<Rightarrow> task"
  task_graph :: "tref list"
  outstanding :: "(nat \<times> tref \<times> worker) list"
  idle :: "worker list"
  build_failed :: bool
  sent_up :: "completed list"
  closed_by_procman :: "worker list"
  sent_to :: "(worker \<times> task_message) list"
  children :: "worker list"
  is_alive :: "worker \<Rightarrow> bool"
  shutdown :: bool
  cancelled :: bool

text \<open>\<^verbatim>\<open>self.idle.add(child)\<close> and \<^verbatim>\<open>self.idle.discard(child)\<close>.\<close>

definition idle_add :: "worker \<Rightarrow> worker list \<Rightarrow> worker list" where
  "idle_add child ws = (if child \<in> set ws then ws else ws @ [child])"

definition idle_discard :: "worker \<Rightarrow> worker list \<Rightarrow> worker list" where
  "idle_discard child ws = removeAll child ws"

text \<open>
  \<^verbatim>\<open>self.idle.pop()\<close> removes an arbitrary element of a non-empty set: which one is the
  parameter \<open>pick\<close>, read modulo the size.
\<close>

definition idle_pop :: "(worker list \<Rightarrow> nat) \<Rightarrow> worker list \<Rightarrow> worker \<times> worker list" where
  "idle_pop pick ws =
     (let k = pick ws mod length ws in (ws ! k, take k ws @ drop (Suc k) ws))"

text \<open>\<^verbatim>\<open>self.outstanding[key] = value\<close> and \<^verbatim>\<open>del self.outstanding[key]\<close>.\<close>

definition outstanding_set ::
  "nat \<Rightarrow> tref \<times> worker \<Rightarrow> (nat \<times> tref \<times> worker) list \<Rightarrow> (nat \<times> tref \<times> worker) list" where
  "outstanding_set k v d =
     (if k \<in> fst ` set d then map (\<lambda>(j, w). if j = k then (j, v) else (j, w)) d
      else d @ [(k, v)])"

definition outstanding_del :: "nat \<Rightarrow> (nat \<times> tref \<times> worker) list \<Rightarrow> (nat \<times> tref \<times> worker) list" where
  "outstanding_del k d = filter (\<lambda>(j, w). j \<noteq> k) d"

definition procman_close :: "task_master_child \<Rightarrow> worker \<Rightarrow> task_master_child" where
  "procman_close s child = s\<lparr>closed_by_procman := closed_by_procman s @ [child]\<rparr>"

definition close_idle :: "task_master_child \<Rightarrow> task_master_child" where
  "close_idle s = s\<lparr>closed_by_procman := closed_by_procman s @ idle s, idle := []\<rparr>"

definition buildFailed :: "task_master_child \<Rightarrow> task_master_child" where
  "buildFailed s = (if \<not> build_failed s then close_idle (s\<lparr>build_failed := True\<rparr>) else s)"

definition receiveClose :: "task_master_child \<Rightarrow> task_master_child" where
  "receiveClose s = s\<lparr>shutdown := True\<rparr>"

definition onWorkerReady :: "task_master_child \<Rightarrow> worker \<Rightarrow> task_master_child \<times> bool" where
  "onWorkerReady s child =
     (if task_graph s = [] then
        (if outstanding s \<noteq> [] then (s\<lparr>idle := idle_add child (idle s)\<rparr>, False)
         else
           (let s1 = close_idle (procman_close s child)
            in (s1\<lparr>sent_up := sent_up s1 @ [CompletedOk]\<rparr>, False)))
      else if build_failed s then (procman_close s child, False)
      else
        (let t = last (task_graph s);
             task = tasks s t;
             message = \<lparr>task_id = t_id task, task_type = t_type task, task_data = t_data task,
                        task_folder = t_folder task, task_outputs = t_outputs task\<rparr>
         in (s\<lparr>task_graph := butlast (task_graph s),
                sent_to := sent_to s @ [(child, message)],
                outstanding := outstanding_set (t_id task) (t, child) (outstanding s)\<rparr>,
             True)))"

text \<open>
  The loop of \<^verbatim>\<open>onWorkerRanTask\<close> over \<^verbatim>\<open>task.outgoing\<close>. \<^verbatim>\<open>set.remove\<close> raises
  \<^verbatim>\<open>KeyError\<close> for an element that is not in the set. A handler that raises returns the
  state it had reached, with the exception.
\<close>

fun release ::
  "task_master_child \<Rightarrow> tref \<Rightarrow> tref list \<Rightarrow> task_master_child \<times> py_error option" where
  "release s task [] = (s, None)"
| "release s task (outgoing # rest) =
     (let og = tasks s outgoing
      in if task \<notin> set (t_incoming og) then (s, Some KeyError)
         else
           (let incoming = removeAll task (t_incoming og);
                s1 = s\<lparr>tasks := (tasks s)(outgoing := og\<lparr>t_incoming := incoming\<rparr>)\<rparr>;
                s2 = (if length incoming = 0
                      then s1\<lparr>task_graph := task_graph s1 @ [outgoing]\<rparr> else s1)
            in release s2 task rest))"

text \<open>
  \<^verbatim>\<open>while len(self.task_graph) and len(self.idle): child = self.idle.pop();
  if not self.onWorkerReady(child): break\<close>.
\<close>

function use_idle :: "(worker list \<Rightarrow> nat) \<Rightarrow> task_master_child \<Rightarrow> task_master_child" where
  "use_idle pick s =
     (if task_graph s \<noteq> [] \<and> idle s \<noteq> [] then
        (let (child, rest) = idle_pop pick (idle s);
             (s1, sent) = onWorkerReady (s\<lparr>idle := rest\<rparr>) child
         in if \<not> sent then s1 else use_idle pick s1)
      else s)"
  by pat_completeness auto
termination
proof (relation "measure (\<lambda>(pick, s). length (idle s))")
  show "wf (measure (\<lambda>(pick, s). length (idle s)))" by simp
next
  fix pick :: "worker list \<Rightarrow> nat" and s :: task_master_child
    and x :: "worker \<times> worker list" and child rest
    and y :: "task_master_child \<times> bool" and s1 sent
  assume loop: "task_graph s \<noteq> [] \<and> idle s \<noteq> []"
    and x: "x = idle_pop pick (idle s)" "(child, rest) = x"
    and y: "y = onWorkerReady (s\<lparr>idle := rest\<rparr>) child" "(s1, sent) = y"
  from y have "s1 = fst (onWorkerReady (s\<lparr>idle := rest\<rparr>) child)" by (metis fst_conv)
  with loop have kept_idle: "idle s1 = rest"
    by (simp add: onWorkerReady_def procman_close_def Let_def)
  from loop have "pick (idle s) mod length (idle s) < length (idle s)" by simp
  moreover from x have "rest = snd (idle_pop pick (idle s))" by (metis snd_conv)
  ultimately have "length rest < length (idle s)"
    by (simp add: idle_pop_def Let_def)
  with kept_idle show "((pick, s1), (pick, s)) \<in> measure (\<lambda>(pick, s). length (idle s))"
    by simp
qed

declare use_idle.simps [simp del]

text \<open>
  \<^verbatim>\<open>onWorkerRanTask\<close>. The lookup \<^verbatim>\<open>self.outstanding[task_id]\<close> raises \<^verbatim>\<open>KeyError\<close> for
  an unknown id; the worker it yields replaces the parameter \<^verbatim>\<open>child\<close> from there on.
\<close>

definition onWorkerRanTask ::
  "(worker list \<Rightarrow> nat) \<Rightarrow> task_master_child \<Rightarrow> worker \<Rightarrow> ran_task
     \<Rightarrow> task_master_child \<times> py_error option" where
  "onWorkerRanTask pick s child message =
     (if \<not> ran_ok message then
        (buildFailed (procman_close (s\<lparr>sent_up := sent_up s @ [CompletedFailed]\<rparr>) child), None)
      else
        (case map_of (outstanding s) (ran_task_id message) of
           None \<Rightarrow> (s, Some KeyError)
         | Some (task, child1) \<Rightarrow>
             (let s1 = s\<lparr>outstanding := outstanding_del (ran_task_id message) (outstanding s)\<rparr>
              in case release s1 task (t_outgoing (tasks s1 task)) of
                   (s2, Some err) \<Rightarrow> (s2, Some err)
                 | (s2, None) \<Rightarrow> (use_idle pick (fst (onWorkerReady s2 child1)), None))))"

text \<open>\<^verbatim>\<open>onWorkerCrashed\<close> and \<^verbatim>\<open>onWorkerDied\<close>; \<open>abnormal\<close> is \<^verbatim>\<open>error != Error.NormalShutdown\<close>.\<close>

definition onWorkerCrashed :: "task_master_child \<Rightarrow> worker \<Rightarrow> tref \<Rightarrow> task_master_child" where
  "onWorkerCrashed s child task =
     buildFailed (s\<lparr>sent_up := sent_up s @ [CompletedCrashed (t_id (tasks s task))]\<rparr>)"

definition onWorkerDied :: "task_master_child \<Rightarrow> worker \<Rightarrow> bool \<Rightarrow> task_master_child" where
  "onWorkerDied s child abnormal =
     (let s1 = (if abnormal then
                  (case find (\<lambda>(tid, task, task_child). task_child = child) (outstanding s) of
                     Some (tid, task, task_child) \<Rightarrow> onWorkerCrashed s child task
                   | None \<Rightarrow> s)
                else s);
          s2 = s1\<lparr>idle := idle_discard child (idle s1)\<rparr>
      in if \<exists>other_child \<in> set (children s2). other_child \<noteq> child \<and> is_alive s2 other_child
         then s2
         else s2\<lparr>cancelled := True\<rparr>)"

text \<open>
  The messages the \<^verbatim>\<open>WorkerParent\<close> objects and the channel deliver to the task master,
  and a run: the handlers called in the order of the messages, until one raises.
\<close>

datatype event =
    Ready worker
  | RanTask worker ran_task
  | Died worker bool
  | Close

fun handle ::
  "(worker list \<Rightarrow> nat) \<Rightarrow> task_master_child \<Rightarrow> event \<Rightarrow> task_master_child \<times> py_error option" where
  "handle pick s (Ready child) = (fst (onWorkerReady s child), None)"
| "handle pick s (RanTask child message) = onWorkerRanTask pick s child message"
| "handle pick s (Died child abnormal) = (onWorkerDied s child abnormal, None)"
| "handle pick s Close = (receiveClose s, None)"

fun run ::
  "(worker list \<Rightarrow> nat) \<Rightarrow> task_master_child \<Rightarrow> event list \<Rightarrow> task_master_child \<times> py_error option" where
  "run pick s [] = (s, None)"
| "run pick s (e # es) =
     (case handle pick s e of
        (s1, Some err) \<Rightarrow> (s1, Some err)
      | (s1, None) \<Rightarrow> run pick s1 es)"

subsection \<open>The parent side\<close>

text \<open>
  The \<^verbatim>\<open>TaskMasterParent\<close> object and what it acts on: its flag, what it wrote to the
  standard output (the pid and the text of \<^verbatim>\<open>'[{0}] {1}'\<close>) and to the standard error,
  whether \<^verbatim>\<open>cx.procman.shutdown\<close> and \<^verbatim>\<open>cx.messagePump.cancel\<close> were called, and the
  node store of the build (reached through \<^verbatim>\<open>self.builder\<close>).
\<close>

record task_master_parent =
  p_build_failed :: bool
  p_stdout :: "(nat \<times> string) list"
  p_stderr :: "string list"
  p_shutdown :: bool
  p_cancelled :: bool
  p_database :: database

definition terminateBuild :: "task_master_parent \<Rightarrow> bool \<Rightarrow> task_master_parent" where
  "terminateBuild s graceful =
     (let s1 = (if \<not> graceful then s\<lparr>p_cancelled := True\<rparr> else s)
      in if \<not> p_build_failed s1 then s1\<lparr>p_build_failed := True, p_shutdown := True\<rparr> else s1)"

text \<open>
  \<^verbatim>\<open>processResults\<close>. After the test of \<^verbatim>\<open>message['ok']\<close> the method reads
  \<^verbatim>\<open>task_id\<close> and \<^verbatim>\<open>updates\<close> into locals and ends: the call of \<^verbatim>\<open>builder.update\<close> is
  commented out.
\<close>

definition processResults :: "task_master_parent \<Rightarrow> results \<Rightarrow> task_master_parent" where
  "processResults s message =
     (let s1 = (if length (res_stdout message) \<noteq> 0
                then s\<lparr>p_stdout := p_stdout s @ [(res_pid message, res_stdout message)]\<rparr>
                else s);
          s2 = (if length (res_stderr message) \<noteq> 0
                then s1\<lparr>p_stderr := p_stderr s1 @ [res_stderr message]\<rparr>
                else s1)
      in if \<not> res_ok message then terminateBuild s2 True else s2)"

subsection \<open>A concrete build\<close>

text \<open>
  Three compiles (tasks 0, 1 and 2, with the ids 1, 2 and 3) and the link (task 3, id 4)
  that waits for them; four workers 0, 1, 2 and 3.
\<close>

definition ex_compile :: "nat \<Rightarrow> string \<Rightarrow> task" where
  "ex_compile i name =
     \<lparr>t_id = i, t_type = Cxx, t_data = PCxx [''cc'', name @ ''.c'', name @ ''.o''] ''gcc'',
      t_folder = None, t_outputs = [name @ ''.o''], t_outgoing = [3], t_incoming = []\<rparr>"

definition ex_link :: task where
  "ex_link =
     \<lparr>t_id = 4, t_type = Command, t_data = PArgv [''ld'', ''a.o'', ''b.o'', ''c.o''],
      t_folder = None, t_outputs = [''app''], t_outgoing = [], t_incoming = [0, 1, 2]\<rparr>"

definition ex_master :: task_master_child where
  "ex_master =
     \<lparr>tasks = (\<lambda>t. ex_link)(0 := ex_compile 1 ''a'', 1 := ex_compile 2 ''b'',
                               2 := ex_compile 3 ''c''),
      task_graph = [0, 1, 2],
      outstanding = [],
      idle = [],
      build_failed = False,
      sent_up = [],
      closed_by_procman = [],
      sent_to = [],
      children = [0, 1, 2, 3],
      is_alive = (\<lambda>w. True),
      shutdown = False,
      cancelled = False\<rparr>"

definition ex_pick :: "worker list \<Rightarrow> nat" where
  "ex_pick ws = 0"

definition ex_ran :: "bool \<Rightarrow> nat \<Rightarrow> ran_task" where
  "ex_ran ok i = \<lparr>ran_ok = ok, ran_task_id = i\<rparr>"

definition ex_message :: "task \<Rightarrow> task_message" where
  "ex_message task =
     \<lparr>task_id = t_id task, task_type = t_type task, task_data = t_data task,
      task_folder = t_folder task, task_outputs = t_outputs task\<rparr>"

text \<open>
  The parent of a build over the store \<open>ex_db_loaded\<close>, and the results a worker sends
  for the compile that produced the output \<^verbatim>\<open>obj/a.o\<close> (node 2) at the time 9.
\<close>

definition ex_parent :: task_master_parent where
  "ex_parent =
     \<lparr>p_build_failed = False, p_stdout = [], p_stderr = [], p_shutdown = False,
      p_cancelled = False, p_database = ex_db_loaded\<rparr>"

definition ex_results :: results where
  "ex_results =
     \<lparr>res_ok = True, res_stdout = ''compiling'', res_stderr = [], res_deps = Some [''/src/a.h''],
      res_pid = 4711, res_task_id = 1, res_updates = [(''obj/a.o'', 9)]\<rparr>"

text \<open>
  The four workers report ready: the first three get the compiles 3, 2 and 1 (the ready
  list is a stack), the fourth becomes idle.
\<close>

definition ex_start :: "event list" where
  "ex_start = [Ready 0, Ready 1, Ready 2, Ready 3]"

text \<open>Then the first compile fails, and the second succeeds.\<close>

definition ex_failure :: "event list" where
  "ex_failure = ex_start @ [RanTask 0 (ex_ran False 3), RanTask 1 (ex_ran True 2)]"

text \<open>Or all three compiles succeed.\<close>

definition ex_success :: "event list" where
  "ex_success =
     ex_start @ [RanTask 0 (ex_ran True 3), RanTask 1 (ex_ran True 2), RanTask 2 (ex_ran True 1)]"

declare query_node.simps [simp del] import_node.simps [simp del]

section \<open>Properties of the worker-process count\<close>

lemma round53_exact: "n < 2 ^ 53 \<Longrightarrow> round53 n = n"
  by (simp add: round53_def)

lemma int_times_1_5_floor:
  assumes "0 \<le> c" and "3 * c < 2 ^ 53"
  shows "int_times_1_5 c = \<lfloor>3 * real_of_int c / 2\<rfloor>"
proof -
  from assms have "c < 2 ^ 53" by simp
  with assms have "int_times_1_5 c = (3 * c) div 2"
    by (simp add: int_times_1_5_def round53_exact)
  also have "\<dots> = \<lfloor>3 * real_of_int c / 2\<rfloor>" by linarith
  finally show ?thesis .
qed

text \<open>
  Beyond that bound the product is rounded, and the result can be the ceiling: the first
  such count is 3002399751580333.
\<close>

lemma int_times_1_5_rounded:
  "int_times_1_5 3002399751580333 = 4503599627370500 \<and>
   (3 * 3002399751580333) div 2 = (4503599627370499 :: int)"
  by (simp add: int_times_1_5_def round53_def compute_bitlen Let_def)

text \<open>
  C6, as the claim states it, fails: with 3 processors and 10 tasks the code creates
  \<open>int(3 * 1.5) = 4\<close> processes, where the ceiling of \<open>4.5\<close> is \<open>5\<close>.
\<close>

theorem num_processes_not_ceiling:
  "TaskMasterParent_num_processes 0 3 10 = Inr 4 \<and> spec_num_processes 3 10 = 5"
  by (simp add: TaskMasterParent_num_processes_def figure_num_processes_def
      clamp_num_processes_def int_times_1_5_def round53_def spec_num_processes_def)

text \<open>
  C6, amended: when the jobs option is 0, for every \<open>cpu_count \<ge> 1\<close> with
  \<open>3 \<times> cpu_count < 2 ^ 53\<close> (the counts for which the floating-point product is exact) the
  number of worker processes is the floor (not the ceiling) of \<open>1.5 \<times> cpu_count\<close>, at
  least 2, and clamped so that it never exceeds \<open>max_parallel\<close>.
\<close>

theorem num_processes_floor:
  assumes "1 \<le> cpu_count" and "3 * cpu_count < 2 ^ 53"
  shows "TaskMasterParent_num_processes 0 cpu_count max_parallel =
           Inr (min max_parallel (max 2 \<lfloor>3 * real_of_int cpu_count / 2\<rfloor>))"
proof (cases "cpu_count = 1")
  case True
  then show ?thesis
    by (simp add: TaskMasterParent_num_processes_def figure_num_processes_def
        clamp_num_processes_def min_def)
next
  case False
  with assms have two: "2 \<le> cpu_count" by simp
  with assms have fl: "int_times_1_5 cpu_count = \<lfloor>3 * real_of_int cpu_count / 2\<rfloor>"
    by (simp add: int_times_1_5_floor)
  from two have "2 \<le> \<lfloor>3 * real_of_int cpu_count / 2\<rfloor>" by linarith
  with fl show ?thesis using False
    by (simp add: TaskMasterParent_num_processes_def figure_num_processes_def
        clamp_num_processes_def min_def max_def)
qed

theorem num_processes_floor_witness:
  "(1::int) \<le> 3 \<and> (3::int) * 3 < 2 ^ 53 \<and>
   TaskMasterParent_num_processes 0 3 10 = Inr 4 \<and>
   TaskMasterParent_num_processes 0 1 10 = Inr 2 \<and>
   TaskMasterParent_num_processes 0 8 5 = Inr 5"
  using num_processes_floor [of 3 10] num_processes_floor [of 1 10] num_processes_floor [of 8 5]
  by simp

text \<open>
  C8: \<^verbatim>\<open>num_processes\<close> is assigned only in the branch \<^verbatim>\<open>jobs == 0\<close>. For every other value
  of the option the variable is unbound when the clamp reads it, so the constructor raises
  \<^verbatim>\<open>UnboundLocalError\<close> before any channel is created; whenever the count is obtained, the
  option was 0.
\<close>

theorem num_processes_only_for_jobs_zero:
  "(jobs \<noteq> 0 \<longrightarrow>
      figure_num_processes jobs cpu_count = None \<and>
      TaskMasterParent_num_processes jobs cpu_count max_parallel = Inl UnboundLocalError \<and>
      TaskMasterParent_channels jobs cpu_count max_parallel = Inl UnboundLocalError) \<and>
   (jobs = 0 \<longrightarrow> (\<exists>n. figure_num_processes jobs cpu_count = Some n)) \<and>
   (\<forall>n. TaskMasterParent_num_processes jobs cpu_count max_parallel = Inr n \<longrightarrow> jobs = 0) \<and>
   (\<forall>cs. TaskMasterParent_channels jobs cpu_count max_parallel = Inr cs \<longrightarrow> jobs = 0)"
  by (auto simp: TaskMasterParent_channels_def TaskMasterParent_num_processes_def
      figure_num_processes_def clamp_num_processes_def split: sum.splits)

theorem num_processes_only_for_jobs_zero_witness:
  "TaskMasterParent_num_processes 4 8 10 = Inl UnboundLocalError \<and>
   TaskMasterParent_channels (- 1) 8 10 = Inl UnboundLocalError \<and>
   TaskMasterParent_num_processes 0 8 20 = Inr 12"
proof -
  have "TaskMasterParent_num_processes 4 8 10 = Inl UnboundLocalError"
    using num_processes_only_for_jobs_zero [of 4 8 10] by simp
  moreover have "TaskMasterParent_channels (- 1) 8 10 = Inl UnboundLocalError"
    using num_processes_only_for_jobs_zero [of "- 1" 8 10] by simp
  moreover have "TaskMasterParent_num_processes 0 8 20 = Inr 12"
    by (simp add: TaskMasterParent_num_processes_def figure_num_processes_def
        clamp_num_processes_def int_times_1_5_def round53_def)
  ultimately show ?thesis by simp
qed

section \<open>Properties of the node store\<close>

subsection \<open>The concrete store\<close>

lemmas ex_defs = ex_db_loaded_def ex_db_def ex_nodes_def ex_util_def ex_entry_def
  ex_folder_entry_def ex_output_entry_def ex_missing_entry_def ex_command_entry_def

text \<open>\<open>ex_db_loaded\<close> is what querying the nodes 2, 3 and 1 of \<open>ex_db\<close> leaves behind.\<close>

lemma ex_db_loaded_reached:
  "(case query_node 10 ex_util ex_db 2 of
      Inr (db1, r1) \<Rightarrow>
        (case query_node 10 ex_util db1 3 of
           Inr (db2, r2) \<Rightarrow>
             (case query_node 10 ex_util db2 1 of
                Inr (db3, r3) \<Rightarrow> db3 = ex_db_loaded \<and> (r1, r2, r3) = (1, 2, 3)
              | Inl err \<Rightarrow> False)
         | Inl err \<Rightarrow> False)
    | Inl err \<Rightarrow> False)"
  by (simp add: ex_defs query_node.simps import_node.simps select_node_def row_tuple_def
      fun_eq_iff)

lemma ex_coherent: "cache_coherent ex_db_loaded"
  by (auto simp: cache_coherent_def ex_defs select_node_def split: if_splits)

subsection \<open>Dropping an entry and the path cache\<close>

text \<open>
  C3: \<^verbatim>\<open>drop_entry\<close> deletes the row, the edges and the entry of the node cache, and leaves
  the path cache as it was. A node cached under its path is therefore still returned by
  \<^verbatim>\<open>query_path\<close> after it was dropped, where the claim requires null.
\<close>

theorem drop_entry_leaves_path_cached:
  assumes "path_cache db p = Some n" and "drop_entry db n = Inr db'"
  shows "query_path fuel u db' p = Inr (db', Some n) \<and> node_cache db' (e_id (heap db n)) = None
     \<and> select_node db' (e_id (heap db n)) = None"
  using assms 
  by (auto simp: query_path_def drop_entry_def Let_def select_node_def delete_node_def map_of_eq_None_iff split: if_splits)

theorem drop_entry_leaves_path_cached_witness:
  "path_cache ex_db_loaded ''obj/a.o'' = Some 1 \<and> e_path (heap ex_db_loaded 1) = Some ''obj/a.o'' \<and>
   \<not> isl (drop_entry ex_db_loaded 1) \<and>
   query_path 10 ex_util (projr (drop_entry ex_db_loaded 1)) ''obj/a.o'' = Inr (projr (drop_entry ex_db_loaded 1), Some 1) \<and>
   select_path (projr (drop_entry ex_db_loaded 1)) ''obj/a.o'' = None"
proof -
  have p: "path_cache ex_db_loaded ''obj/a.o'' = Some 1" by (simp add: ex_defs)
  obtain db' where d: "drop_entry ex_db_loaded 1 = Inr db'"
    by (simp add: drop_entry_def ex_defs Let_def)
  have "select_path db' ''obj/a.o'' = None"
    using d by (auto simp: drop_entry_def ex_defs Let_def select_path_def delete_node_def)
  moreover have "e_path (heap ex_db_loaded 1) = Some ''obj/a.o''" by (simp add: ex_defs)
  ultimately show ?thesis
    using drop_entry_leaves_path_cached [OF p d, of 10 ex_util] p d by simp
qed

subsection \<open>Clearing the dirty bit\<close>

text \<open>
  C2: when no stamp is supplied for an artifact and sampling the modification time fails,
  \<^verbatim>\<open>unmark_dirty\<close> prints the warning and goes on to the \<^verbatim>\<open>update\<close> statement with the
  stamp \<^verbatim>\<open>None\<close>. If the node has a row, the statement violates \<^verbatim>\<open>not null\<close> and the call
  ends in \<^verbatim>\<open>IntegrityError\<close> instead of a warning only; if it has none, the entry in memory
  is marked clean with the stamp \<^verbatim>\<open>None\<close>. In neither case is the node left dirty with
  a warning only.
\<close>

theorem unmark_dirty_stat_failure:
  assumes "\<not> is_command (e_type (heap db entry))"
    and "getmtime db (e_path (heap db entry)) = None"
  shows "if e_id (heap db entry) \<in> fst ` set (nodes db)
         then unmark_dirty db entry None = Inl IntegrityError
         else (\<exists>db'. unmark_dirty db entry None = Inr db' \<and>
                 e_dirty (heap db' entry) = 0 \<and> e_stamp (heap db' entry) = None)"
  using assms by (simp add: unmark_dirty_def update_stamp_def Let_def)

theorem unmark_dirty_stat_failure_witness:
  "\<not> is_command (e_type (heap ex_db_loaded 2)) \<and>
   getmtime ex_db_loaded (e_path (heap ex_db_loaded 2)) = None \<and>
   e_dirty (heap ex_db_loaded 2) = 1 \<and>
   unmark_dirty ex_db_loaded 2 None = Inl IntegrityError"
proof -
  have a: "\<not> is_command (e_type (heap ex_db_loaded 2))" by (simp add: ex_defs)
  have b: "getmtime ex_db_loaded (e_path (heap ex_db_loaded 2)) = None"
    by (simp add: ex_defs getmtime_def)
  have c: "e_id (heap ex_db_loaded 2) \<in> fst ` set (nodes ex_db_loaded)" by (simp add: ex_defs)
  have "e_dirty (heap ex_db_loaded 2) = 1" by (simp add: ex_defs)
  then show ?thesis using unmark_dirty_stat_failure [OF a b] a b c by simp
qed

lemma map_of_update_row:
  "map_of (map (\<lambda>(j, r). if j = i then (j, f r) else (j, r)) rows) k =
     (if k = i then map_option f (map_of rows k) else map_of rows k)"
  by (induction rows) auto

text \<open>
  Where the node is a command, or the modification time of the file can be sampled, a
  supplied stamp of \<open>0.0\<close> and no stamp at all have the same effect: a command gets the
  stamp \<open>0.0\<close>, an artifact the sampled time, in the entry and in the row.
\<close>

theorem unmark_dirty_zero_as_none:
  assumes "is_command (e_type (heap db entry)) \<and> m = 0 \<or>
           \<not> is_command (e_type (heap db entry)) \<and> getmtime db (e_path (heap db entry)) = Some m"
  shows "unmark_dirty db entry (Some 0) = unmark_dirty db entry None \<and>
         (\<exists>db'. unmark_dirty db entry (Some 0) = Inr db' \<and>
            e_stamp (heap db' entry) = Some m \<and> e_dirty (heap db' entry) = 0 \<and>
            select_node db' (e_id (heap db entry)) =
              map_option (\<lambda>r. r\<lparr>r_dirty := 0, r_stamp := m\<rparr>) (select_node db (e_id (heap db entry))))"
  using assms
  by (auto simp: unmark_dirty_def update_stamp_def Let_def select_node_def map_of_update_row)

theorem unmark_dirty_zero_as_none_witness:
  "is_command (e_type (heap ex_db_loaded 3)) \<and>
   \<not> is_command (e_type (heap ex_db_loaded 1)) \<and>
   getmtime ex_db_loaded (e_path (heap ex_db_loaded 1)) = Some 7 \<and>
   e_stamp (heap (projr (unmark_dirty ex_db_loaded 3 (Some 0))) 3) = Some 0 \<and>
   e_stamp (heap (projr (unmark_dirty ex_db_loaded 1 (Some 0))) 1) = Some 7 \<and>
   unmark_dirty ex_db_loaded 1 (Some 0) = unmark_dirty ex_db_loaded 1 None"
proof -
  have c: "is_command (e_type (heap ex_db_loaded 3))" by (simp add: ex_defs)
  have a: "\<not> is_command (e_type (heap ex_db_loaded 1))" by (simp add: ex_defs)
  have g: "getmtime ex_db_loaded (e_path (heap ex_db_loaded 1)) = Some 7"
    by (simp add: ex_defs getmtime_def)
  from unmark_dirty_zero_as_none [of ex_db_loaded 3 0] c
  obtain db3 where "unmark_dirty ex_db_loaded 3 (Some 0) = Inr db3" "e_stamp (heap db3 3) = Some 0"
    by blast
  then have s3: "e_stamp (heap (projr (unmark_dirty ex_db_loaded 3 (Some 0))) 3) = Some 0" by simp
  from unmark_dirty_zero_as_none [of ex_db_loaded 1 7] a g
  obtain db1 where r1: "unmark_dirty ex_db_loaded 1 (Some 0) = Inr db1"
    and t1: "e_stamp (heap db1 1) = Some 7"
    and e: "unmark_dirty ex_db_loaded 1 (Some 0) = unmark_dirty ex_db_loaded 1 None"
    by blast
  from r1 t1 have s1: "e_stamp (heap (projr (unmark_dirty ex_db_loaded 1 (Some 0))) 1) = Some 7"
    by simp
  from c a g s3 s1 e show ?thesis by blast
qed

text \<open>
  C9: where sampling fails the two differ. For the output 3, whose file is missing,
  \<^verbatim>\<open>unmark_dirty\<close> with the stamp \<open>0.0\<close> goes to sample the time, prints that it leaves
  the node dirty, and then (the handler has no \<^verbatim>\<open>return\<close>) stores the supplied \<open>0.0\<close> and
  marks the node clean; with no stamp at all the same fall-through ends in
  \<^verbatim>\<open>IntegrityError\<close>.
\<close>

theorem unmark_dirty_zero_differs:
  "\<not> is_command (e_type (heap ex_db_loaded 2)) \<and>
   getmtime ex_db_loaded (e_path (heap ex_db_loaded 2)) = None \<and>
   unmark_dirty ex_db_loaded 2 None = Inl IntegrityError \<and>
   \<not> isl (unmark_dirty ex_db_loaded 2 (Some 0)) \<and>
   console (projr (unmark_dirty ex_db_loaded 2 (Some 0))) =
     [''Could not unmark file as dirty; leaving dirty.''] \<and>
   e_stamp (heap (projr (unmark_dirty ex_db_loaded 2 (Some 0))) 2) = Some 0 \<and>
   e_dirty (heap (projr (unmark_dirty ex_db_loaded 2 (Some 0))) 2) = 0 \<and>
   map_option r_dirty (select_node (projr (unmark_dirty ex_db_loaded 2 (Some 0))) 3) = Some 0"
  by (simp add: unmark_dirty_def update_stamp_def getmtime_def select_node_def Let_def ex_defs)

subsection \<open>Updating a command\<close>

text \<open>
  C4: \<^verbatim>\<open>update_command\<close> stores the pickled byte string in \<^verbatim>\<open>entry.blob\<close> and compares
  \<^verbatim>\<open>entry.blob\<close> with the raw \<^verbatim>\<open>data\<close>. After an update that changed the node, the same
  call again (same type, folder and data) finds a byte string where it expects the data,
  reports a change once more, and raises the refactoring error when \<^verbatim>\<open>refactoring\<close> is
  set, although nothing changed.
\<close>

theorem update_command_twice_reports_change:
  assumes first: "update_command u db entry ty folder dat False = Inr (db1, True)"
    and "dat \<noteq> PNone" and "\<forall>b. dat \<noteq> PBytes b"
  shows "e_type (heap db1 entry) = ty \<and> e_folder (heap db1 entry) = folder \<and>
         e_blob (heap db1 entry) \<noteq> dat \<and>
         (\<exists>db2. update_command u db1 entry ty folder dat False = Inr (db2, True)) \<and>
         update_command u db1 entry ty folder dat True = Inl RefactoringError"
proof -
  let ?blob = "if \<not> truthy dat then PNone else PBytes (CompatPickle u dat)"
  from first have h: "heap db1 entry =
      (heap db entry)\<lparr>e_type := ty, e_folder := folder, e_blob := ?blob, e_dirty := 1\<rparr>"
    by (auto simp: update_command_def Let_def split: if_splits)
  from assms(2,3) have ne: "?blob \<noteq> dat" by (cases dat) auto
  from h ne have neq: "e_blob (heap db1 entry) \<noteq> dat" by simp
  from h have ty: "e_type (heap db1 entry) = ty" and fo: "e_folder (heap db1 entry) = folder"
    by simp_all
  from neq have "\<exists>db2. update_command u db1 entry ty folder dat False = Inr (db2, True)"
    by (simp add: update_command_def Let_def)
  moreover from neq have "update_command u db1 entry ty folder dat True = Inl RefactoringError"
    by (simp add: update_command_def Let_def)
  ultimately show ?thesis using ty fo neq by blast
qed

theorem update_command_twice_reports_change_witness:
  "\<not> isl (update_command ex_util ex_db_loaded 3 Cxx (Some 0) (PArgv [''gcc'', ''a.c'']) False) \<and>
   snd (projr (update_command ex_util ex_db_loaded 3 Cxx (Some 0) (PArgv [''gcc'', ''a.c'']) False)) \<and>
   snd (projr (update_command ex_util
          (fst (projr (update_command ex_util ex_db_loaded 3 Cxx (Some 0) (PArgv [''gcc'', ''a.c'']) False)))
          3 Cxx (Some 0) (PArgv [''gcc'', ''a.c'']) False)) \<and>
   update_command ex_util
          (fst (projr (update_command ex_util ex_db_loaded 3 Cxx (Some 0) (PArgv [''gcc'', ''a.c'']) False)))
          3 Cxx (Some 0) (PArgv [''gcc'', ''a.c'']) True = Inl RefactoringError"
proof -
  obtain db1 where f: "update_command ex_util ex_db_loaded 3 Cxx (Some 0) (PArgv [''gcc'', ''a.c'']) False = Inr (db1, True)"
    by (simp add: update_command_def Let_def ex_defs)
  from update_command_twice_reports_change [OF f]
  obtain db2 where "update_command ex_util db1 3 Cxx (Some 0) (PArgv [''gcc'', ''a.c'']) False = Inr (db2, True)"
    and "update_command ex_util db1 3 Cxx (Some 0) (PArgv [''gcc'', ''a.c'']) True = Inl RefactoringError"
    by auto
  with f show ?thesis by simp
qed

subsection \<open>Queries only read\<close>

lemma reads_only_refl: "reads_only db db"
  by (simp add: reads_only_def)

lemma imported_refl: "imported db db"
  by (simp add: imported_def reads_only_refl)

lemma imported_trans: "imported a b \<Longrightarrow> imported b c \<Longrightarrow> imported a c"
  unfolding imported_def by (auto simp: reads_only_def)

lemma stored_imported:
  assumes row: "select_node db1 i = Some rw"
    and node: "e_id node = i" "e_type node = r_type rw" "e_path node = r_path rw"
    and none: "node_cache db i = None"
    and imp: "imported db db1"
  shows "imported db (stored db1 i node pc) \<and>
         node_cache (stored db1 i node pc) i = Some (next_ref db1)"
proof -
  let ?db' = "stored db1 i node pc"
  have "reads_only db ?db'"
    using none imp by (auto simp: stored_def Let_def reads_only_def imported_def split: option.splits)
  moreover have "cache_coherent ?db'" if "cache_coherent db"
  proof -
    from that imp have c1: "cache_coherent db1" by (simp add: imported_def)
    show ?thesis
      unfolding cache_coherent_def
    proof (intro allI impI)
      fix j r assume jr: "node_cache ?db' j = Some r"
      show "r < next_ref ?db' \<and> e_id (heap ?db' r) = j \<and>
            (\<exists>rw. select_node ?db' j = Some rw \<and> e_type (heap ?db' r) = r_type rw \<and>
                  e_path (heap ?db' r) = r_path rw)"
      proof (cases "j = i")
        case True
        with jr row node show ?thesis
          by (auto simp: stored_def Let_def select_node_def split: option.splits)
      next
        case False
        with jr have "node_cache db1 j = Some r"
          by (auto simp: stored_def Let_def split: option.splits)
        with c1 have "r < next_ref db1 \<and> e_id (heap db1 r) = j \<and>
            (\<exists>rw. select_node db1 j = Some rw \<and> e_type (heap db1 r) = r_type rw \<and>
                  e_path (heap db1 r) = r_path rw)"
          by (simp add: cache_coherent_def)
        then show ?thesis
          by (auto simp: stored_def Let_def select_node_def split: option.splits)
      qed
    qed
  qed
  moreover have "\<forall>q < next_ref db. heap ?db' q = heap db q"
    using imp by (auto simp: stored_def Let_def imported_def reads_only_def split: option.splits)
  moreover have "node_cache ?db' i = Some (next_ref db1)"
    by (auto simp: stored_def Let_def split: option.splits)
  ultimately show ?thesis by (simp add: imported_def)
qed

lemma import_node_shape:
  assumes "import_node fuel u db i (Some (ty, st, di, ge, pa, fo, da)) = Inr (db', r)"
  shows "\<exists>db1 node pc.
       node_cache db i = None \<and>
       (db1 = db \<or> (\<exists>n f rf. fuel = Suc n \<and> query_node n u db f = Inr (db1, rf))) \<and>
       r = next_ref db1 \<and> e_id node = i \<and> e_type node = ty \<and> e_path node = pa \<and>
       db' = stored db1 i node pc"
proof -
  from assms have none: "node_cache db i = None"
    by (simp add: import_node.simps [of fuel] split: if_splits)
  define res where "res = (case fo of
                   FNull \<Rightarrow> Inr (db, None)
                 | FEntry f \<Rightarrow> Inr (db, Some f)
                 | FId f \<Rightarrow>
                     if f = 0 then Inr (db, None)
                     else (case fuel of
                             0 \<Rightarrow> Inl RecursionError
                           | Suc n \<Rightarrow>
                               (case query_node n u db f of
                                  Inl err \<Rightarrow> Inl err
                                | Inr (db1, r) \<Rightarrow> Inr (db1, Some r))))"
  from assms none obtain db1 folder where res: "res = Inr (db1, folder)"
    by (cases res) (auto simp: import_node.simps [of fuel] res_def)
  have d1: "db1 = db \<or> (\<exists>n f rf. fuel = Suc n \<and> query_node n u db f = Inr (db1, rf))"
    using res unfolding res_def
    by (auto split: folder_col.splits if_splits nat.splits sum.splits)
  define node where "node = \<lparr>e_id = i, e_type = ty, e_path = pa,
      e_blob = (case da of None \<Rightarrow> PNone | Some b \<Rightarrow> if b = [] then PNone else Unpickle u b),
      e_folder = folder, e_stamp = Some st, e_dirty = di,
      e_generated = (ge \<noteq> 0), e_outgoing = None\<rparr>"
  have "r = next_ref db1 \<and> (\<exists>pc. db' = stored db1 i node pc)"
  proof (cases "pa = None \<or> pa = Some []")
    case True
    with assms none res have "r = next_ref db1 \<and> db' = stored db1 i node None"
      by (auto simp: import_node.simps [of fuel] res_def [symmetric] node_def stored_def Let_def)
    then show ?thesis by blast
  next
    case False
    then obtain p where p: "pa = Some p" "p \<noteq> []" by auto
    with assms none res have "r = next_ref db1 \<and>
        db' = stored db1 i node (Some ((path_cache db1)(p \<mapsto> next_ref db1)))"
      by (auto simp: import_node.simps [of fuel] res_def [symmetric] node_def stored_def Let_def
          split: if_splits)
    then show ?thesis by blast
  qed
  moreover have "e_id node = i" "e_type node = ty" "e_path node = pa" by (simp_all add: node_def)
  ultimately show ?thesis using none d1 by blast
qed

lemma query_node_unfold:
  "query_node fuel u db i = Inr (db', r) \<Longrightarrow>
     (node_cache db i = Some r \<and> db' = db) \<or>
     (node_cache db i = None \<and>
      import_node fuel u db i (map_option row_tuple (select_node db i)) = Inr (db', r))"
  by (auto simp: query_node.simps split: option.splits)

lemma import_node_imported:
  "import_node fuel u db i (map_option row_tuple (select_node db i)) = Inr (db', r) \<Longrightarrow>
   imported db db' \<and> node_cache db' i = Some r"
proof (induction fuel arbitrary: db i db' r)
  case 0
  from "0.prems" obtain rw where rw: "select_node db i = Some rw"
    by (cases "select_node db i") (auto simp: import_node.simps split: if_splits)
  from "0.prems" rw
  have "import_node 0 u db i (Some (r_type rw, r_stamp rw, r_dirty rw, r_generated rw, r_path rw,
      (case r_folder rw of None \<Rightarrow> FNull | Some f \<Rightarrow> FId f), r_data rw)) = Inr (db', r)"
    by (simp add: row_tuple_def)
  from import_node_shape [OF this] obtain db1 node pc where
    none: "node_cache db i = None" and d1: "db1 = db" and r: "r = next_ref db1" and
    node: "e_id node = i" "e_type node = r_type rw" "e_path node = r_path rw" and
    fin: "db' = stored db1 i node pc"
    by blast
  from d1 have imp: "imported db db1" by (simp add: imported_refl)
  from d1 rw have row1: "select_node db1 i = Some rw" by simp
  from stored_imported [OF row1 node none imp] r fin show ?case by simp
next
  case (Suc n)
  from Suc.prems obtain rw where rw: "select_node db i = Some rw"
    by (cases "select_node db i") (auto simp: import_node.simps split: if_splits)
  from Suc.prems rw
  have "import_node (Suc n) u db i (Some (r_type rw, r_stamp rw, r_dirty rw, r_generated rw, r_path rw,
      (case r_folder rw of None \<Rightarrow> FNull | Some f \<Rightarrow> FId f), r_data rw)) = Inr (db', r)"
    by (simp add: row_tuple_def)
  from import_node_shape [OF this] obtain db1 node pc where
    none: "node_cache db i = None" and
    d1: "db1 = db \<or> (\<exists>f rf. query_node n u db f = Inr (db1, rf))" and r: "r = next_ref db1" and
    node: "e_id node = i" "e_type node = r_type rw" "e_path node = r_path rw" and
    fin: "db' = stored db1 i node pc"
    by blast
  have imp: "imported db db1"
  proof -
    from d1 consider "db1 = db" | f rf where "query_node n u db f = Inr (db1, rf)" by blast
    then show ?thesis
    proof cases
      case 1
      then show ?thesis by (simp add: imported_refl)
    next
      case 2
      from query_node_unfold [OF this] Suc.IH show ?thesis
        by (auto simp: imported_refl)
    qed
  qed
  from imp rw have row1: "select_node db1 i = Some rw"
    by (simp add: imported_def reads_only_def select_node_def)
  from stored_imported [OF row1 node none imp] r fin show ?case by simp
qed

lemma query_node_imported:
  assumes "query_node fuel u db i = Inr (db', r)"
  shows "imported db db' \<and> node_cache db' i = Some r"
  using query_node_unfold [OF assms] import_node_imported
  by (auto simp: imported_refl)

lemma imported_kept: "imported db db' \<Longrightarrow> kept db db'"
  by (simp add: imported_def kept_def)

lemma kept_refl: "kept db db"
  by (simp add: kept_def reads_only_refl)

lemma kept_trans: "kept a b \<Longrightarrow> kept b c \<Longrightarrow> kept a c"
  unfolding kept_def by (auto simp: reads_only_def)

lemma outgoing_add_kept: "kept db (outgoing_add db node entry)"
  by (auto simp: kept_def reads_only_def outgoing_add_def Let_def cache_coherent_def select_node_def)

lemma outgoing_add_set:
  "set (outgoing_of (outgoing_add db node entry) node) = insert entry (set (outgoing_of db node))"
  by (auto simp: outgoing_add_def outgoing_of_def Let_def)

lemma add_outgoing_post:
  assumes "add_outgoing fuel u db node ids = Inr db'" and "node < next_ref db"
  shows "kept db db' \<and>
         set (outgoing_of db node) \<subseteq> set (outgoing_of db' node) \<and>
         (\<forall>i \<in> set ids. \<exists>r. node_cache db' i = Some r \<and> r \<in> set (outgoing_of db' node)) \<and>
         (\<forall>r \<in> set (outgoing_of db' node).
             r \<in> set (outgoing_of db node) \<or> (\<exists>i. node_cache db' i = Some r))"
  using assms
proof (induction ids arbitrary: db)
  case Nil
  then show ?case by (simp add: kept_refl)
next
  case (Cons i ids)
  from Cons.prems(1) obtain db1 entry where
    q: "query_node fuel u db i = Inr (db1, entry)" and
    rest: "add_outgoing fuel u (outgoing_add db1 node entry) node ids = Inr db'"
    by (auto split: sum.splits)
  let ?db2 = "outgoing_add db1 node entry"
  from query_node_imported [OF q] have imp: "imported db db1" and c: "node_cache db1 i = Some entry"
    by simp_all
  from imp Cons.prems(2) have lt: "node < next_ref ?db2"
    by (auto simp: imported_def reads_only_def outgoing_add_def Let_def)
  from imp Cons.prems(2) have same: "outgoing_of db1 node = outgoing_of db node"
    by (simp add: imported_def outgoing_of_def)
  from Cons.IH [OF rest lt] have
    k: "kept ?db2 db'" and
    sub: "set (outgoing_of ?db2 node) \<subseteq> set (outgoing_of db' node)" and
    ids: "\<forall>i \<in> set ids. \<exists>r. node_cache db' i = Some r \<and> r \<in> set (outgoing_of db' node)" and
    orig: "\<forall>r \<in> set (outgoing_of db' node).
             r \<in> set (outgoing_of ?db2 node) \<or> (\<exists>i. node_cache db' i = Some r)"
    by simp_all
  have k02: "kept db ?db2"
    using imported_kept [OF imp] outgoing_add_kept kept_trans by blast
  with k have k0: "kept db db'" using kept_trans by blast
  from c have c2: "node_cache ?db2 i = Some entry" by (simp add: outgoing_add_def Let_def)
  with k have c': "node_cache db' i = Some entry" by (simp add: kept_def reads_only_def)
  from sub have e': "entry \<in> set (outgoing_of db' node)" by (auto simp: outgoing_add_set)
  from sub same have s0: "set (outgoing_of db node) \<subseteq> set (outgoing_of db' node)"
    by (auto simp: outgoing_add_set)
  from orig c' same have o0: "\<forall>r \<in> set (outgoing_of db' node).
             r \<in> set (outgoing_of db node) \<or> (\<exists>i. node_cache db' i = Some r)"
    by (auto simp: outgoing_add_set)
  from k0 s0 ids c' e' o0 show ?case by auto
qed

lemma select_outgoing_iff: "o' \<in> set (select_outgoing i es) \<longleftrightarrow> (o', i) \<in> set es"
  by (auto simp: select_outgoing_def image_iff)

lemma query_outgoing_post:
  assumes q: "query_outgoing fuel u db node = Inr (db1, outs)"
    and empty: "outgoing_of db node = []"
    and lt: "node < next_ref db"
  shows "kept db db1 \<and>
         (\<forall>o'. (o', e_id (heap db node)) \<in> set (edges db) \<longrightarrow>
                (\<exists>r \<in> set outs. node_cache db1 o' = Some r)) \<and>
         (\<forall>r \<in> set outs. \<exists>o'. node_cache db1 o' = Some r)"
proof -
  define db0 where "db0 = db\<lparr>heap := (heap db)(node := (heap db node)\<lparr>e_outgoing := Some []\<rparr>)\<rparr>"
  define i where "i = e_id (heap db node)"
  from q empty obtain dbA where
    a: "add_outgoing fuel u db0 node (select_outgoing i (edges db0)) = Inr dbA" and
    b: "add_outgoing fuel u dbA node (select_outgoing i (dynamic_edges dbA)) = Inr db1" and
    outs: "outs = outgoing_of db1 node"
    by (auto simp: query_outgoing_def Let_def db0_def i_def split: sum.splits)
  have k0: "kept db db0"
    by (auto simp: db0_def kept_def reads_only_def cache_coherent_def select_node_def)
  have e0: "outgoing_of db0 node = []" by (simp add: db0_def outgoing_of_def)
  from lt have lt0: "node < next_ref db0" by (simp add: db0_def)
  from add_outgoing_post [OF a lt0] e0 have
    kA: "kept db0 dbA" and
    idsA: "\<forall>j \<in> set (select_outgoing i (edges db0)).
             \<exists>r. node_cache dbA j = Some r \<and> r \<in> set (outgoing_of dbA node)" and
    memA: "\<forall>r \<in> set (outgoing_of dbA node). \<exists>j. node_cache dbA j = Some r"
    by simp_all
  from kA lt0 have ltA: "node < next_ref dbA" by (simp add: kept_def reads_only_def)
  from add_outgoing_post [OF b ltA] have
    kB: "kept dbA db1" and
    sub: "set (outgoing_of dbA node) \<subseteq> set (outgoing_of db1 node)" and
    memB: "\<forall>r \<in> set (outgoing_of db1 node).
             r \<in> set (outgoing_of dbA node) \<or> (\<exists>j. node_cache db1 j = Some r)"
    by simp_all
  from kB have cache: "\<And>j r. node_cache dbA j = Some r \<Longrightarrow> node_cache db1 j = Some r"
    by (simp add: kept_def reads_only_def)
  have k: "kept db db1" using k0 kA kB kept_trans by blast
  have strong: "\<exists>r \<in> set outs. node_cache db1 o' = Some r"
    if "(o', e_id (heap db node)) \<in> set (edges db)" for o'
  proof -
    from that have "o' \<in> set (select_outgoing i (edges db0))"
      by (simp add: select_outgoing_iff db0_def i_def)
    with idsA obtain r where "node_cache dbA o' = Some r" "r \<in> set (outgoing_of dbA node)"
      by blast
    with sub cache outs show ?thesis by blast
  qed
  have mem: "\<exists>o'. node_cache db1 o' = Some r" if "r \<in> set outs" for r
    using that outs memB memA cache by blast
  from k strong mem show ?thesis by blast
qed
lemma query_outgoing_cached:
  assumes q: "query_outgoing fuel u db node = Inr (db1, outs)"
    and ok: "outgoing_cache_ok db node"
    and lt: "node < next_ref db"
  shows "kept db db1 \<and>
         (\<forall>o'. (o', e_id (heap db node)) \<in> set (edges db) \<longrightarrow>
                (\<exists>r \<in> set outs. node_cache db1 o' = Some r)) \<and>
         (\<forall>r \<in> set outs. \<exists>o'. node_cache db1 o' = Some r)"
proof (cases "outgoing_of db node = []")
  case True
  from query_outgoing_post [OF q True lt] show ?thesis .
next
  case False
  with q have "db1 = db" "outs = outgoing_of db node"
    by (auto simp: query_outgoing_def Let_def)
  with ok False show ?thesis by (simp add: outgoing_cache_ok_def kept_refl)
qed

subsection \<open>Dropping a command\<close>

lemma map_of_delete_node:
  "map_of (delete_node i rows) k = (if k = i then None else map_of rows k)"
  by (induction rows) (auto simp: delete_node_def)

lemma not_mentions_deleted: "\<not> mentions (delete_edges_of i es) i"
  by (auto simp: mentions_def delete_edges_of_def)

lemma drop_entry_post:
  assumes "drop_entry db r = Inr db'"
  shows "heap db' = heap db \<and> files db' = files db \<and>
         (\<forall>k. select_node db' k = (if k = e_id (heap db r) then None else select_node db k)) \<and>
         \<not> mentions (edges db') (e_id (heap db r)) \<and>
         \<not> mentions (weak_edges db') (e_id (heap db r)) \<and>
         \<not> mentions (dynamic_edges db') (e_id (heap db r))"
  using assms
  by (auto simp: drop_entry_def Let_def select_node_def map_of_delete_node not_mentions_deleted
      split: if_splits)

lemma drop_output_post:
  assumes "drop_output db r = Inr db'"
  shows "heap db' = heap db \<and> e_type (heap db r) = Output \<and>
         (\<exists>p. e_path (heap db r) = Some p \<and> files db' = (files db)(p := None)) \<and>
         (\<forall>k. select_node db' k = (if k = e_id (heap db r) then None else select_node db k))"
proof -
  from assms obtain p where p: "e_path (heap db r) = Some p" and ty: "e_type (heap db r) = Output"
    by (auto simp: drop_output_def Let_def split: if_splits option.splits)
  define dbm where "dbm = (if files db p \<noteq> None
                           then db\<lparr>console := console db @ [''Removing old output: '' @ p]\<rparr>
                           else db)\<lparr>files := (files db)(p := None)\<rparr>"
  from assms p ty have d: "drop_entry dbm r = Inr db'"
    by (auto simp: drop_output_def Let_def dbm_def split: if_splits)
  have hm: "heap dbm = heap db" "files dbm = (files db)(p := None)" "nodes dbm = nodes db"
    by (simp_all add: dbm_def)
  from drop_entry_post [OF d] hm p ty show ?thesis by (simp add: select_node_def)
qed

lemma drop_outputs_post:
  assumes "drop_outputs db rs = Inr db'"
  shows "heap db' = heap db \<and>
         (\<forall>k. select_node db' k =
                (if k \<in> e_id ` heap db ` set rs then None else select_node db k)) \<and>
         (\<forall>r \<in> set rs. e_type (heap db r) = Output \<and>
                (\<exists>p. e_path (heap db r) = Some p \<and> files db' p = None)) \<and>
         (\<forall>p. files db' p \<noteq> None \<longrightarrow> files db' p = files db p)"
  using assms
proof (induction rs arbitrary: db)
  case Nil
  then show ?case by simp
next
  case (Cons r rs)
  from Cons.prems obtain db1 where
    one: "drop_output db r = Inr db1" and rest: "drop_outputs db1 rs = Inr db'"
    by (auto split: if_splits sum.splits)
  from drop_output_post [OF one] obtain p where
    h1: "heap db1 = heap db" and ty: "e_type (heap db r) = Output" and
    p: "e_path (heap db r) = Some p" and f1: "files db1 = (files db)(p := None)" and
    s1: "\<forall>k. select_node db1 k = (if k = e_id (heap db r) then None else select_node db k)"
    by blast
  from Cons.IH [OF rest] have
    h': "heap db' = heap db1" and
    s': "\<forall>k. select_node db' k =
                (if k \<in> e_id ` heap db1 ` set rs then None else select_node db1 k)" and
    o': "\<forall>r \<in> set rs. e_type (heap db1 r) = Output \<and>
                (\<exists>p. e_path (heap db1 r) = Some p \<and> files db' p = None)" and
    f': "\<forall>p. files db' p \<noteq> None \<longrightarrow> files db' p = files db1 p"
    by simp_all
  have "files db' p = None"
  proof (rule ccontr)
    assume "files db' p \<noteq> None"
    with f' f1 show False by auto
  qed
  with ty p o' h1 have outs: "\<forall>x \<in> set (r # rs). e_type (heap db x) = Output \<and>
                (\<exists>p. e_path (heap db x) = Some p \<and> files db' p = None)"
    by auto
  have fs: "\<forall>q. files db' q \<noteq> None \<longrightarrow> files db' q = files db q"
  proof (intro allI impI)
    fix q assume q: "files db' q \<noteq> None"
    with f' have "files db' q = files db1 q" by blast
    with q f1 show "files db' q = files db q" by (cases "q = p") auto
  qed
  from s' s1 h1 have sel: "\<forall>k. select_node db' k =
                (if k \<in> e_id ` heap db ` set (r # rs) then None else select_node db k)"
    by auto
  from h' h1 sel outs fs show ?case by simp
qed

text \<open>
  On a coherent store, for a command whose cached outgoing set is unset or up to date:
  \<^verbatim>\<open>drop_command\<close>, when it returns, has first dropped every strong outgoing node (each
  is an \<^verbatim>\<open>Output\<close>, its row is deleted and its file is gone, whether it existed or not)
  while the row of the command was still there, and has then dropped the command: its row
  is deleted and no edge of the three relations mentions it.
\<close>

theorem drop_command_drops_outputs_then_command:
  assumes ok: "drop_command fuel u db cmd = Inr db'"
    and coh: "cache_coherent db"
    and cached: "node_cache db (e_id (heap db cmd)) = Some cmd"
    and is_cmd: "is_command (e_type (heap db cmd))"
    and fresh: "outgoing_cache_ok db cmd"
    and order: "\<forall>xs. set (set_order u xs) = set xs"
  shows "\<exists>db1 outs db2.
      query_outgoing fuel u db cmd = Inr (db1, outs) \<and>
      drop_outputs db1 (set_order u outs) = Inr db2 \<and>
      drop_entry db2 cmd = Inr db' \<and>
      (\<forall>o'. (o', e_id (heap db cmd)) \<in> set (edges db) \<longrightarrow>
         (\<exists>rw p. select_node db o' = Some rw \<and> r_type rw = Output \<and> r_path rw = Some p \<and>
                 files db2 p = None \<and> files db' p = None) \<and>
         select_node db2 o' = None \<and> select_node db' o' = None) \<and>
      select_node db2 (e_id (heap db cmd)) = select_node db (e_id (heap db cmd)) \<and>
      select_node db' (e_id (heap db cmd)) = None \<and>
      \<not> mentions (edges db') (e_id (heap db cmd)) \<and>
      \<not> mentions (weak_edges db') (e_id (heap db cmd)) \<and>
      \<not> mentions (dynamic_edges db') (e_id (heap db cmd))"
proof -
  let ?cid = "e_id (heap db cmd)"
  from ok obtain db1 outs db2 where
    q: "query_outgoing fuel u db cmd = Inr (db1, outs)" and
    ds: "drop_outputs db1 (set_order u outs) = Inr db2" and
    de: "drop_entry db2 cmd = Inr db'"
    by (auto simp: drop_command_def split: sum.splits)
  from coh cached have lt: "cmd < next_ref db" by (simp add: cache_coherent_def)
  from query_outgoing_cached [OF q fresh lt] have
    k: "kept db db1" and
    strong: "\<forall>o'. (o', ?cid) \<in> set (edges db) \<longrightarrow> (\<exists>r \<in> set outs. node_cache db1 o' = Some r)" and
    mem: "\<forall>r \<in> set outs. \<exists>o'. node_cache db1 o' = Some r"
    by simp_all
  from k coh have coh1: "cache_coherent db1" by (simp add: kept_def)
  from k have sel1: "\<And>j. select_node db1 j = select_node db j"
    by (simp add: kept_def reads_only_def select_node_def)
  from k lt have id1: "e_id (heap db1 cmd) = ?cid" and ty1: "e_type (heap db1 cmd) = e_type (heap db cmd)"
    by (simp_all add: kept_def)
  from k cached have cached1: "node_cache db1 ?cid = Some cmd" by (simp add: kept_def reads_only_def)
  from order have so: "set (set_order u outs) = set outs" by simp
  from drop_outputs_post [OF ds] so have
    h2: "heap db2 = heap db1" and
    sel2: "\<forall>j. select_node db2 j = (if j \<in> e_id ` heap db1 ` set outs then None else select_node db1 j)" and
    out2: "\<forall>r \<in> set outs. e_type (heap db1 r) = Output \<and>
             (\<exists>p. e_path (heap db1 r) = Some p \<and> files db2 p = None)"
    by simp_all
  from h2 id1 have id2: "e_id (heap db2 cmd) = ?cid" by simp
  from drop_entry_post [OF de] id2 have
    f': "files db' = files db2" and
    sel': "\<forall>j. select_node db' j = (if j = ?cid then None else select_node db2 j)" and
    nm: "\<not> mentions (edges db') ?cid" "\<not> mentions (weak_edges db') ?cid"
        "\<not> mentions (dynamic_edges db') ?cid"
    by simp_all
  have notout: "?cid \<notin> e_id ` heap db1 ` set outs"
  proof
    assume "?cid \<in> e_id ` heap db1 ` set outs"
    then obtain r where r: "r \<in> set outs" "e_id (heap db1 r) = ?cid" by auto
    with mem obtain o' where o': "node_cache db1 o' = Some r" by blast
    with coh1 have "e_id (heap db1 r) = o'" by (simp add: cache_coherent_def)
    with r o' cached1 have "r = cmd" by simp
    with r out2 ty1 have "e_type (heap db cmd) = Output" by auto
    with is_cmd show False by simp
  qed
  have outputs: "(\<exists>rw p. select_node db o' = Some rw \<and> r_type rw = Output \<and> r_path rw = Some p \<and>
                 files db2 p = None \<and> files db' p = None) \<and>
         select_node db2 o' = None \<and> select_node db' o' = None"
    if "(o', ?cid) \<in> set (edges db)" for o'
  proof -
    from that strong obtain r where r: "r \<in> set outs" "node_cache db1 o' = Some r" by blast
    with coh1 obtain rw where rw: "e_id (heap db1 r) = o'" "select_node db1 o' = Some rw"
      "e_type (heap db1 r) = r_type rw" "e_path (heap db1 r) = r_path rw"
      by (auto simp: cache_coherent_def)
    from r out2 obtain p where p: "e_type (heap db1 r) = Output" "e_path (heap db1 r) = Some p"
      "files db2 p = None" by blast
    from r rw have "o' \<in> e_id ` heap db1 ` set outs" by force
    with sel2 have s2: "select_node db2 o' = None" by simp
    with sel' have s': "select_node db' o' = None" by simp
    from rw p sel1 have "select_node db o' = Some rw" "r_type rw = Output" "r_path rw = Some p"
      by simp_all
    moreover from p f' have "files db2 p = None" "files db' p = None" by simp_all
    ultimately show ?thesis using s2 s' by blast
  qed
  from sel2 notout sel1 have keep: "select_node db2 ?cid = select_node db ?cid" by simp
  from sel' have gone: "select_node db' ?cid = None" by simp
  from q ds de outputs keep gone nm show ?thesis by blast
qed

lemmas db_eval = drop_command_def query_outgoing_def outgoing_of_def select_outgoing_def
  query_node.simps import_node.simps select_node_def row_tuple_def outgoing_add_def
  drop_output_def drop_entry_def isabs_def delete_node_def delete_edges_of_def Let_def
  ex_db_command_def ex_defs

lemma ex_db_command_reached: "query_node 10 ex_util ex_db 1 = Inr (ex_db_command, 1)"
  by (simp add: db_eval fun_eq_iff)

lemma ex_command_coherent: "cache_coherent ex_db_command"
  by (auto simp: cache_coherent_def ex_db_command_def ex_defs select_node_def split: if_splits)

theorem drop_command_drops_outputs_then_command_witness:
  "cache_coherent ex_db_command \<and>
   node_cache ex_db_command (e_id (heap ex_db_command 1)) = Some 1 \<and>
   is_command (e_type (heap ex_db_command 1)) \<and>
   outgoing_cache_ok ex_db_command 1 \<and>
   (\<forall>xs. set (set_order ex_util xs) = set xs) \<and>
   \<not> isl (drop_command 10 ex_util ex_db_command 1) \<and>
   select_node (projr (drop_command 10 ex_util ex_db_command 1)) 1 = None \<and>
   select_node (projr (drop_command 10 ex_util ex_db_command 1)) 2 = None \<and>
   select_node (projr (drop_command 10 ex_util ex_db_command 1)) 3 = None \<and>
   files (projr (drop_command 10 ex_util ex_db_command 1)) ''obj/a.o'' = None \<and>
   \<not> mentions (edges (projr (drop_command 10 ex_util ex_db_command 1))) 1 \<and>
   \<not> mentions (weak_edges (projr (drop_command 10 ex_util ex_db_command 1))) 1 \<and>
   \<not> mentions (dynamic_edges (projr (drop_command 10 ex_util ex_db_command 1))) 1"
proof -
  have cached: "node_cache ex_db_command (e_id (heap ex_db_command 1)) = Some 1"
    by (simp add: ex_db_command_def ex_defs)
  have is_cmd: "is_command (e_type (heap ex_db_command 1))"
    by (simp add: ex_db_command_def ex_defs)
  have fresh: "outgoing_cache_ok ex_db_command 1"
    by (simp add: outgoing_cache_ok_def outgoing_of_def ex_db_command_def ex_defs)
  have order: "\<forall>xs. set (set_order ex_util xs) = set xs" by (simp add: ex_defs)
  have cid: "e_id (heap ex_db_command 1) = 1" by (simp add: ex_db_command_def ex_defs)
  have e2: "(2, 1) \<in> set (edges ex_db_command)" and e3: "(3, 1) \<in> set (edges ex_db_command)"
    by (simp_all add: ex_db_command_def ex_defs)
  have p2: "map_option r_path (select_node ex_db_command 2) = Some (Some ''obj/a.o'')"
    by (simp add: ex_db_command_def ex_defs select_node_def)
  have "\<not> isl (drop_command 10 ex_util ex_db_command 1)"
    by (simp add: db_eval)
  then obtain db' where ok: "drop_command 10 ex_util ex_db_command 1 = Inr db'"
    by (cases "drop_command 10 ex_util ex_db_command 1") auto
  from drop_command_drops_outputs_then_command
         [OF ok ex_command_coherent cached is_cmd fresh order]
  have "select_node db' 1 = None \<and> select_node db' 2 = None \<and> select_node db' 3 = None \<and>
        files db' ''obj/a.o'' = None \<and> \<not> mentions (edges db') 1 \<and>
        \<not> mentions (weak_edges db') 1 \<and> \<not> mentions (dynamic_edges db') 1"
    using cid e2 e3 p2 by fastforce
  with ok ex_command_coherent cached is_cmd fresh order show ?thesis by simp
qed

lemma ex_queried: "query_outgoing 10 ex_util ex_db_command 1 = Inr (ex_db_queried, [2, 3])"
proof -
  have "\<not> isl (query_outgoing 10 ex_util ex_db_command 1)"
    and "snd (projr (query_outgoing 10 ex_util ex_db_command 1)) = [2, 3]"
    by (simp_all add: db_eval)
  then show ?thesis
    by (cases "query_outgoing 10 ex_util ex_db_command 1") (auto simp: ex_db_queried_def)
qed

lemma ex_queried_explicit:
  "ex_db_queried =
     ex_db_command\<lparr>node_cache := [5 \<mapsto> 0, 1 \<mapsto> 1, 2 \<mapsto> 2, 3 \<mapsto> 3],
       path_cache := [''obj'' \<mapsto> 0, ''obj/a.o'' \<mapsto> 2, ''obj/a.d'' \<mapsto> 3],
       heap := (\<lambda>r. ex_entry)(0 := ex_folder_entry,
                  1 := ex_command_entry\<lparr>e_outgoing := Some [2, 3]\<rparr>,
                  2 := ex_output_entry, 3 := ex_missing_entry),
       next_ref := 4\<rparr>"
  by (simp add: ex_db_queried_def db_eval fun_eq_iff)

lemma ex_dropped: "drop_output ex_db_queried 2 = Inr ex_db_dropped"
proof -
  have "\<not> isl (drop_output ex_db_queried 2)"
    by (simp add: ex_queried_explicit db_eval)
  then show ?thesis
    by (cases "drop_output ex_db_queried 2") (auto simp: ex_db_dropped_def)
qed

lemma ex_dropped_explicit:
  "ex_db_dropped =
     ex_db_queried\<lparr>nodes := delete_node 2 ex_nodes, edges := [(1, 4), (3, 1)],
       node_cache := [5 \<mapsto> 0, 1 \<mapsto> 1, 3 \<mapsto> 3],
       files := [''/src/a.c'' \<mapsto> 3, ''/src/a.h'' \<mapsto> 2],
       console := [''Removing old output: obj/a.o'']\<rparr>"
  by (simp add: ex_db_dropped_def ex_queried_explicit db_eval fun_eq_iff)

lemma ex_dropped_coherent: "cache_coherent ex_db_dropped"
  by (auto simp: cache_coherent_def ex_dropped_explicit ex_queried_explicit db_eval
      split: if_splits)

text \<open>
  C7: \<^verbatim>\<open>drop_entry\<close> does not take the dropped entry out of the cached outgoing sets (as
  \<^verbatim>\<open>drop_strong_edge\<close> and \<^verbatim>\<open>drop_dynamic_edge\<close> do for an edge). After
  \<^verbatim>\<open>query_outgoing\<close> cached the two outputs of the command 1 and \<^verbatim>\<open>drop_output\<close>
  dropped the output 2, the store is coherent (\<open>ex_dropped_coherent\<close>), the command
  still has the output 3, and its cached set still holds the dropped entry.
  \<^verbatim>\<open>drop_command\<close> then meets that entry again and raises \<^verbatim>\<open>KeyError\<close> at
  \<^verbatim>\<open>del self.node_cache_[entry.id]\<close>, in whichever order it goes through the set, before
  it drops the command.
\<close>

theorem drop_command_raises_on_stale_outgoing:
  "query_outgoing 10 ex_util ex_db_command 1 = Inr (ex_db_queried, [2, 3]) \<and>
   drop_output ex_db_queried 2 = Inr ex_db_dropped \<and>
   node_cache ex_db_dropped 1 = Some 1 \<and>
   is_command (e_type (heap ex_db_dropped 1)) \<and>
   select_node ex_db_dropped 1 \<noteq> None \<and>
   select_outgoing 1 (edges ex_db_dropped) = [3] \<and>
   outgoing_of ex_db_dropped 1 = [2, 3] \<and>
   drop_command 10 ex_util ex_db_dropped 1 = Inl KeyError \<and>
   drop_command 10 (ex_util\<lparr>set_order := rev\<rparr>) ex_db_dropped 1 = Inl KeyError"
proof -
  have st: "node_cache ex_db_dropped 1 = Some 1" "is_command (e_type (heap ex_db_dropped 1))"
    "select_node ex_db_dropped 1 \<noteq> None"
    "select_outgoing 1 (edges ex_db_dropped) = [3]" "outgoing_of ex_db_dropped 1 = [2, 3]"
    by (simp_all add: ex_dropped_explicit ex_queried_explicit db_eval)
  have k1: "drop_command 10 ex_util ex_db_dropped 1 = Inl KeyError"
    by (simp add: ex_dropped_explicit ex_queried_explicit db_eval)
  have k2: "drop_command 10 (ex_util\<lparr>set_order := rev\<rparr>) ex_db_dropped 1 = Inl KeyError"
    by (simp add: ex_dropped_explicit ex_queried_explicit db_eval)
  from ex_queried ex_dropped st k1 k2 show ?thesis by simp
qed

section \<open>Properties of the worker\<close>

lemma stat_outputs_eq:
  "stat_outputs w outs = Inr ts \<Longrightarrow>
     ts = map (\<lambda>p. (p, the (w_files w p))) outs \<and> (\<forall>p \<in> set outs. w_files w p \<noteq> None)"
  by (induction outs arbitrary: ts) (auto split: option.splits sum.splits)

text \<open>
  C10: whenever \<^verbatim>\<open>receiveTask\<close> sends its two messages, they agree on \<^verbatim>\<open>ok\<close> and on the
  task; the \<^verbatim>\<open>updates\<close> of a failed task are empty, and those of a task that succeeded
  are its declared outputs, each with the modification time of the file after the task.
\<close>

theorem failed_task_reports_no_updates:
  assumes "receiveTask u w message = Inr (w', ack, res)"
  shows "ran_ok ack = res_ok res \<and> ran_task_id ack = task_id message \<and>
         res_task_id res = task_id message \<and>
         (\<not> res_ok res \<longrightarrow> res_updates res = []) \<and>
         (res_ok res \<longrightarrow>
            res_updates res = map (\<lambda>p. (p, the (w_files w' p))) (task_outputs message) \<and>
            (\<forall>p \<in> set (task_outputs message). w_files w' p \<noteq> None))"
  using assms
  by (auto simp: receiveTask_def dest!: stat_outputs_eq split: sum.splits if_splits)

theorem failed_task_reports_no_updates_witness:
  "\<not> isl (receiveTask ex_worker_util ex_worker (ex_task_message ''a.c'')) \<and>
   res_ok (snd (snd (projr (receiveTask ex_worker_util ex_worker (ex_task_message ''a.c''))))) \<and>
   res_updates (snd (snd (projr (receiveTask ex_worker_util ex_worker (ex_task_message ''a.c''))))) =
     [(''a.o'', 9)] \<and>
   \<not> isl (receiveTask ex_worker_util ex_worker (ex_task_message ''b.c'')) \<and>
   \<not> res_ok (snd (snd (projr (receiveTask ex_worker_util ex_worker (ex_task_message ''b.c''))))) \<and>
   res_updates (snd (snd (projr (receiveTask ex_worker_util ex_worker (ex_task_message ''b.c''))))) = []"
proof -
  let ?good = "receiveTask ex_worker_util ex_worker (ex_task_message ''a.c'')"
  let ?bad = "receiveTask ex_worker_util ex_worker (ex_task_message ''b.c'')"
  have g: "\<not> isl ?good" "res_ok (snd (snd (projr ?good)))"
    "res_updates (snd (snd (projr ?good))) = [(''a.o'', 9)]"
    by (simp_all add: ex_worker_util_def ex_worker_def ex_task_message_def receiveTask_def
        taskMap_def doCompile_def adjust_path_def isabs_def)
  have b: "\<not> isl ?bad" "\<not> res_ok (snd (snd (projr ?bad)))"
    by (simp_all add: ex_worker_util_def ex_worker_def ex_task_message_def receiveTask_def
        taskMap_def doCompile_def adjust_path_def isabs_def)
  from b(1) obtain w' ack res where r: "?bad = Inr (w', ack, res)"
    by (cases ?bad) auto
  from failed_task_reports_no_updates [OF r] r b(2)
  have "res_updates (snd (snd (projr ?bad))) = []" by simp
  with g b show ?thesis by simp
qed

section \<open>Properties of the task master\<close>

subsection \<open>No dispatch after a failure\<close>

lemma release_keeps:
  "build_failed (fst (release s task ts)) = build_failed s \<and>
   sent_to (fst (release s task ts)) = sent_to s"
  by (induction ts arbitrary: s) (auto simp: Let_def)

lemma onWorkerReady_stopped:
  assumes "build_failed s"
  shows "build_failed (fst (onWorkerReady s child)) \<and>
         sent_to (fst (onWorkerReady s child)) = sent_to s \<and> \<not> snd (onWorkerReady s child)"
  using assms by (simp add: onWorkerReady_def close_idle_def procman_close_def Let_def)

lemma use_idle_stopped:
  assumes "build_failed s"
  shows "build_failed (use_idle pick s) \<and> sent_to (use_idle pick s) = sent_to s"
proof (cases "task_graph s \<noteq> [] \<and> idle s \<noteq> []")
  case False
  then have "use_idle pick s = s" by (subst use_idle.simps) auto
  with assms show ?thesis by simp
next
  case True
  obtain child rest where p: "idle_pop pick (idle s) = (child, rest)"
    by (cases "idle_pop pick (idle s)")
  let ?s0 = "s\<lparr>idle := rest\<rparr>"
  from assms have f0: "build_failed ?s0" by simp
  obtain s1 sent where o: "onWorkerReady ?s0 child = (s1, sent)"
    by (cases "onWorkerReady ?s0 child")
  with onWorkerReady_stopped [OF f0, of child]
  have s1: "build_failed s1" "sent_to s1 = sent_to s" "\<not> sent" by simp_all
  from True p o s1 have "use_idle pick s = s1" by (subst use_idle.simps) simp
  with s1 show ?thesis by simp
qed

lemma buildFailed_keeps:
  "build_failed (buildFailed s) \<and> sent_to (buildFailed s) = sent_to s"
  by (simp add: buildFailed_def close_idle_def)

lemma onWorkerRanTask_stopped:
  assumes "build_failed s"
  shows "build_failed (fst (onWorkerRanTask pick s child message)) \<and>
         sent_to (fst (onWorkerRanTask pick s child message)) = sent_to s"
proof (cases "ran_ok message")
  case False
  then show ?thesis
    by (simp add: onWorkerRanTask_def buildFailed_keeps procman_close_def)
next
  case True
  show ?thesis
  proof (cases "map_of (outstanding s) (ran_task_id message)")
    case None
    with True assms show ?thesis by (simp add: onWorkerRanTask_def)
  next
    case (Some tc)
    obtain task child1 where tc: "tc = (task, child1)" by (cases tc)
    let ?s1 = "s\<lparr>outstanding := outstanding_del (ran_task_id message) (outstanding s)\<rparr>"
    obtain s2 e where rr: "release ?s1 task (t_outgoing (tasks ?s1 task)) = (s2, e)"
      by (cases "release ?s1 task (t_outgoing (tasks ?s1 task))")
    from release_keeps [of ?s1 task "t_outgoing (tasks ?s1 task)"] assms rr
    have r: "build_failed s2" "sent_to s2 = sent_to s" by simp_all
    show ?thesis
    proof (cases e)
      case (Some err)
      with True \<open>map_of (outstanding s) (ran_task_id message) = Some tc\<close> tc r rr show ?thesis
        by (simp add: onWorkerRanTask_def Let_def)
    next
      case None
      let ?s3 = "fst (onWorkerReady s2 child1)"
      from onWorkerReady_stopped [OF r(1), of child1] r
      have s3: "build_failed ?s3" "sent_to ?s3 = sent_to s" by simp_all
      from use_idle_stopped [OF s3(1), of pick] s3
      have "build_failed (use_idle pick ?s3) \<and> sent_to (use_idle pick ?s3) = sent_to s" by simp
      with None True \<open>map_of (outstanding s) (ran_task_id message) = Some tc\<close> tc rr show ?thesis
        by (simp add: onWorkerRanTask_def Let_def)
    qed
  qed
qed

lemma onWorkerDied_stopped:
  assumes "build_failed s"
  shows "build_failed (onWorkerDied s child abnormal) \<and>
         sent_to (onWorkerDied s child abnormal) = sent_to s"
  using assms
  by (auto simp: onWorkerDied_def onWorkerCrashed_def buildFailed_def Let_def
      split: option.splits)

lemma handle_stopped:
  assumes "build_failed s"
  shows "build_failed (fst (handle pick s e)) \<and> sent_to (fst (handle pick s e)) = sent_to s"
  using assms
  by (cases e)
    (simp_all add: onWorkerReady_stopped onWorkerRanTask_stopped onWorkerDied_stopped
      receiveClose_def)

lemma run_stopped:
  assumes "build_failed s"
  shows "build_failed (fst (run pick s es)) \<and> sent_to (fst (run pick s es)) = sent_to s"
  using assms
proof (induction es arbitrary: s)
  case Nil
  then show ?case by simp
next
  case (Cons e es)
  from handle_stopped [OF Cons.prems, of pick e]
  have h: "build_failed (fst (handle pick s e))" "sent_to (fst (handle pick s e)) = sent_to s"
    by simp_all
  obtain s1 r where hd: "handle pick s e = (s1, r)" by (cases "handle pick s e")
  with h have h1: "build_failed s1" "sent_to s1 = sent_to s" by simp_all
  show ?case
  proof (cases r)
    case None
    with Cons.IH [OF h1(1)] h1 hd show ?thesis by simp
  next
    case (Some err)
    with h1 hd show ?thesis by simp
  qed
qed

text \<open>
  C5, amended: after a \<^verbatim>\<open>ranTask\<close> message with \<^verbatim>\<open>ok = false\<close> the task master has
  \<^verbatim>\<open>build_failed\<close> set, has sent \<^verbatim>\<open>completed\<close> with the status \<^verbatim>\<open>failed\<close> upward, has
  closed the reporting worker and, if the build had not failed before, every idle worker
  (after an earlier failure the idle set is left as it is); and whatever messages follow,
  no task is sent to any worker again.
\<close>

theorem failed_task_stops_dispatch:
  assumes "\<not> ran_ok message"
  shows "snd (onWorkerRanTask pick s child message) = None \<and>
         build_failed (fst (onWorkerRanTask pick s child message)) \<and>
         sent_up (fst (onWorkerRanTask pick s child message)) = sent_up s @ [CompletedFailed] \<and>
         sent_to (fst (onWorkerRanTask pick s child message)) = sent_to s \<and>
         child \<in> set (closed_by_procman (fst (onWorkerRanTask pick s child message))) \<and>
         (\<not> build_failed s \<longrightarrow>
            idle (fst (onWorkerRanTask pick s child message)) = [] \<and>
            set (idle s) \<subseteq> set (closed_by_procman (fst (onWorkerRanTask pick s child message)))) \<and>
         (build_failed s \<longrightarrow>
            idle (fst (onWorkerRanTask pick s child message)) = idle s \<and>
            closed_by_procman (fst (onWorkerRanTask pick s child message)) =
              closed_by_procman s @ [child]) \<and>
         sent_to (fst (run pick (fst (onWorkerRanTask pick s child message)) events)) =
           sent_to s \<and>
         build_failed (fst (run pick (fst (onWorkerRanTask pick s child message)) events))"
proof -
  let ?s' = "fst (onWorkerRanTask pick s child message)"
  from assms have s': "?s' = buildFailed (procman_close (s\<lparr>sent_up := sent_up s @ [CompletedFailed]\<rparr>) child)"
    and none: "snd (onWorkerRanTask pick s child message) = None"
    by (simp_all add: onWorkerRanTask_def)
  from s' have bf: "build_failed ?s'" and st: "sent_to ?s' = sent_to s"
    by (simp_all add: buildFailed_keeps procman_close_def)
  from s' have up: "sent_up ?s' = sent_up s @ [CompletedFailed]"
    and cl: "child \<in> set (closed_by_procman ?s')"
    by (simp_all add: buildFailed_def close_idle_def procman_close_def)
  from s' have first: "\<not> build_failed s \<longrightarrow> idle ?s' = [] \<and> set (idle s) \<subseteq> set (closed_by_procman ?s')"
    by (auto simp: buildFailed_def close_idle_def procman_close_def)
  from s' have again: "build_failed s \<longrightarrow>
      idle ?s' = idle s \<and> closed_by_procman ?s' = closed_by_procman s @ [child]"
    by (auto simp: buildFailed_def close_idle_def procman_close_def)
  from run_stopped [OF bf, of pick] st
  have later: "sent_to (fst (run pick ?s' events)) = sent_to s \<and>
                  build_failed (fst (run pick ?s' events))"
    by simp
  from none bf up st cl first again later show ?thesis by blast
qed

theorem failed_task_stops_dispatch_witness:
  "\<not> ran_ok (ex_ran False 3) \<and>
   \<not> build_failed (fst (run ex_pick ex_master ex_start)) \<and>
   idle (fst (run ex_pick ex_master ex_start)) = [3] \<and>
   build_failed (fst (onWorkerRanTask ex_pick (fst (run ex_pick ex_master ex_start)) 0
                        (ex_ran False 3))) \<and>
   idle (fst (onWorkerRanTask ex_pick (fst (run ex_pick ex_master ex_start)) 0
                        (ex_ran False 3))) = [] \<and>
   closed_by_procman (fst (onWorkerRanTask ex_pick (fst (run ex_pick ex_master ex_start)) 0
                        (ex_ran False 3))) = [0, 3] \<and>
   sent_to (fst (run ex_pick
                  (fst (onWorkerRanTask ex_pick (fst (run ex_pick ex_master ex_start)) 0
                        (ex_ran False 3)))
                  [RanTask 1 (ex_ran True 2), RanTask 2 (ex_ran True 1), Ready 3])) =
     sent_to (fst (run ex_pick ex_master ex_start))"
proof -
  let ?s = "fst (run ex_pick ex_master ex_start)"
  let ?s' = "fst (onWorkerRanTask ex_pick ?s 0 (ex_ran False 3))"
  let ?later = "[RanTask 1 (ex_ran True 2), RanTask 2 (ex_ran True 1), Ready 3]"
  have m: "\<not> ran_ok (ex_ran False 3)" by (simp add: ex_ran_def)
  have b: "\<not> build_failed ?s" by code_simp
  have i: "idle ?s = [3]" by code_simp
  have c: "closed_by_procman ?s' = [0, 3]" by code_simp
  note th = failed_task_stops_dispatch [OF m, of ex_pick ?s 0 ?later]
  from th have f: "build_failed ?s'" by (simp del: run.simps)
  from th b have e: "idle ?s' = []" by (simp del: run.simps)
  from th have l: "sent_to (fst (run ex_pick ?s' ?later)) = sent_to ?s" by (simp del: run.simps)
  from m b i f e c l show ?thesis by (simp del: run.simps)
qed

text \<open>
  C5, as the claim states it, fails at a second failure: after the first compile failed
  and the second succeeded, worker 1 is idle (the failed task is still outstanding); when
  the third compile fails too, \<^verbatim>\<open>buildFailed\<close> does nothing, and worker 1 stays idle and
  is not closed.
\<close>

theorem second_failure_leaves_idle_worker:
  "\<not> ran_ok (ex_ran False 1) \<and>
   snd (run ex_pick ex_master ex_failure) = None \<and>
   build_failed (fst (run ex_pick ex_master ex_failure)) \<and>
   idle (fst (run ex_pick ex_master ex_failure)) = [1] \<and>
   idle (fst (onWorkerRanTask ex_pick (fst (run ex_pick ex_master ex_failure)) 2
               (ex_ran False 1))) = [1] \<and>
   closed_by_procman (fst (onWorkerRanTask ex_pick (fst (run ex_pick ex_master ex_failure)) 2
               (ex_ran False 1))) = [0, 3, 2]"
  by code_simp

subsection \<open>Results and the node store\<close>

text \<open>
  C1: \<^verbatim>\<open>processResults\<close> never changes the node store, whatever the message; and the
  task master releases and dispatches the link as soon as the three \<^verbatim>\<open>ranTask\<close> messages
  arrived, with no \<^verbatim>\<open>results\<close> message involved. For the results of the compile that
  wrote \<^verbatim>\<open>obj/a.o\<close> at the time 9, the row of that output is still dirty with the stamp
  0 afterwards.
\<close>

theorem results_are_not_applied:
  "p_database (processResults p message) = p_database p \<and>
   snd (run ex_pick ex_master ex_success) = None \<and>
   last (sent_to (fst (run ex_pick ex_master ex_success))) = (2, ex_message ex_link) \<and>
   res_updates ex_results = [(''obj/a.o'', 9)] \<and>
   select_node (p_database (processResults ex_parent ex_results)) 2 =
     select_node ex_db_loaded 2 \<and>
   map_option r_dirty (select_node ex_db_loaded 2) = Some 1 \<and>
   map_option r_stamp (select_node ex_db_loaded 2) = Some 0"
proof -
  have general: "\<And>q m. p_database (processResults q m) = p_database q"
    by (simp add: processResults_def terminateBuild_def Let_def)
  have r1: "snd (run ex_pick ex_master ex_success) = None" by code_simp
  have r2: "last (sent_to (fst (run ex_pick ex_master ex_success))) = (2, ex_message ex_link)"
    by code_simp
  have r3: "res_updates ex_results = [(''obj/a.o'', 9)]" by (simp add: ex_results_def)
  have r4: "select_node (p_database (processResults ex_parent ex_results)) 2 =
     select_node ex_db_loaded 2"
    by (simp add: general ex_parent_def)
  have r5: "map_option r_dirty (select_node ex_db_loaded 2) = Some 1"
    and r6: "map_option r_stamp (select_node ex_db_loaded 2) = Some 0"
    by (simp_all add: select_node_def ex_db_loaded_def ex_db_def ex_nodes_def)
  from general [of p message] r1 r2 r3 r4 r5 r6 show ?thesis by (simp del: run.simps)
qed

end
